theory Spec2Isabelle
  imports Main "HOL-Library.Word" "HOL-Library.Monad_Syntax"
begin

unbundle bit_operations_syntax

section \<open>Data model\<close>

text \<open>
  The declarations of \<open>raylib.h\<close> (Color, Rectangle, Image, the PixelFormat enumeration and
  the colour macros) are not part of the sources of this repository; their shape is taken
  from the way \<open>rtextures.c\<close> uses them.  A function of the C code that runs into undefined
  behaviour (an access outside a buffer, a copy of negative length, a signed overflow, a
  float that does not fit the integer it is cast to) returns \<open>None\<close>.
\<close>

type_synonym byte = "8 word"

record Color =
  r :: byte
  g :: byte
  b :: byte
  a :: byte

definition WHITE :: Color where
  "WHITE = \<lparr>r = 255, g = 255, b = 255, a = 255\<rparr>"

section \<open>ColorAlphaBlend\<close>

definition u32 :: "byte \<Rightarrow> 32 word" where
  "u32 c = ucast c"

definition u8 :: "32 word \<Rightarrow> byte" where
  "u8 v = ucast v"

definition ColorAlphaBlend :: "Color \<Rightarrow> Color \<Rightarrow> Color \<Rightarrow> Color" where
  "ColorAlphaBlend dst src0 tint =
    (let src = \<lparr>r = u8 (drop_bit 8 (u32 (r src0) * (u32 (r tint) + 1))),
                g = u8 (drop_bit 8 (u32 (g src0) * (u32 (g tint) + 1))),
                b = u8 (drop_bit 8 (u32 (b src0) * (u32 (b tint) + 1))),
                a = u8 (drop_bit 8 (u32 (a src0) * (u32 (a tint) + 1)))\<rparr>
     in if a src = 0 then dst
        else if a src = 255 then src
        else
          (let alpha = u32 (a src) + 1;
               out_a = u8 (drop_bit 8 (alpha * 256 + u32 (a dst) * (256 - alpha)))
           in if out_a > 0
              then \<lparr>r = u8 (drop_bit 8 ((u32 (r src) * alpha * 256 + u32 (r dst) * u32 (a dst) * (256 - alpha)) div u32 out_a)),
                    g = u8 (drop_bit 8 ((u32 (g src) * alpha * 256 + u32 (g dst) * u32 (a dst) * (256 - alpha)) div u32 out_a)),
                    b = u8 (drop_bit 8 ((u32 (b src) * alpha * 256 + u32 (b dst) * u32 (a dst) * (256 - alpha)) div u32 out_a)),
                    a = out_a\<rparr>
              else WHITE\<lparr>a := out_a\<rparr>))"

section \<open>Pixel formats and GetPixelDataSize\<close>

text \<open>
  The PixelFormat enumeration of \<open>raylib.h\<close> (raylib 4.5, the version \<open>rtextures.c\<close>
  belongs to).  The field \<open>format\<close> of an image and the \<open>format\<close> arguments are C
  ints, compared with \<open><\<close> and \<open>>=\<close>, so the formats are integers here as well.
\<close>

definition PIXELFORMAT_UNCOMPRESSED_GRAYSCALE :: int where "PIXELFORMAT_UNCOMPRESSED_GRAYSCALE = 1"
definition PIXELFORMAT_UNCOMPRESSED_GRAY_ALPHA :: int where "PIXELFORMAT_UNCOMPRESSED_GRAY_ALPHA = 2"
definition PIXELFORMAT_UNCOMPRESSED_R5G6B5 :: int where "PIXELFORMAT_UNCOMPRESSED_R5G6B5 = 3"
definition PIXELFORMAT_UNCOMPRESSED_R8G8B8 :: int where "PIXELFORMAT_UNCOMPRESSED_R8G8B8 = 4"
definition PIXELFORMAT_UNCOMPRESSED_R5G5B5A1 :: int where "PIXELFORMAT_UNCOMPRESSED_R5G5B5A1 = 5"
definition PIXELFORMAT_UNCOMPRESSED_R4G4B4A4 :: int where "PIXELFORMAT_UNCOMPRESSED_R4G4B4A4 = 6"
definition PIXELFORMAT_UNCOMPRESSED_R8G8B8A8 :: int where "PIXELFORMAT_UNCOMPRESSED_R8G8B8A8 = 7"
definition PIXELFORMAT_UNCOMPRESSED_R32 :: int where "PIXELFORMAT_UNCOMPRESSED_R32 = 8"
definition PIXELFORMAT_UNCOMPRESSED_R32G32B32 :: int where "PIXELFORMAT_UNCOMPRESSED_R32G32B32 = 9"
definition PIXELFORMAT_UNCOMPRESSED_R32G32B32A32 :: int where "PIXELFORMAT_UNCOMPRESSED_R32G32B32A32 = 10"
definition PIXELFORMAT_COMPRESSED_DXT1_RGB :: int where "PIXELFORMAT_COMPRESSED_DXT1_RGB = 11"
definition PIXELFORMAT_COMPRESSED_DXT1_RGBA :: int where "PIXELFORMAT_COMPRESSED_DXT1_RGBA = 12"
definition PIXELFORMAT_COMPRESSED_DXT3_RGBA :: int where "PIXELFORMAT_COMPRESSED_DXT3_RGBA = 13"
definition PIXELFORMAT_COMPRESSED_DXT5_RGBA :: int where "PIXELFORMAT_COMPRESSED_DXT5_RGBA = 14"
definition PIXELFORMAT_COMPRESSED_ETC1_RGB :: int where "PIXELFORMAT_COMPRESSED_ETC1_RGB = 15"
definition PIXELFORMAT_COMPRESSED_ETC2_RGB :: int where "PIXELFORMAT_COMPRESSED_ETC2_RGB = 16"
definition PIXELFORMAT_COMPRESSED_ETC2_EAC_RGBA :: int where "PIXELFORMAT_COMPRESSED_ETC2_EAC_RGBA = 17"
definition PIXELFORMAT_COMPRESSED_PVRT_RGB :: int where "PIXELFORMAT_COMPRESSED_PVRT_RGB = 18"
definition PIXELFORMAT_COMPRESSED_PVRT_RGBA :: int where "PIXELFORMAT_COMPRESSED_PVRT_RGBA = 19"
definition PIXELFORMAT_COMPRESSED_ASTC_4x4_RGBA :: int where "PIXELFORMAT_COMPRESSED_ASTC_4x4_RGBA = 20"
definition PIXELFORMAT_COMPRESSED_ASTC_8x8_RGBA :: int where "PIXELFORMAT_COMPRESSED_ASTC_8x8_RGBA = 21"

lemmas PIXELFORMAT_defs =
  PIXELFORMAT_UNCOMPRESSED_GRAYSCALE_def PIXELFORMAT_UNCOMPRESSED_GRAY_ALPHA_def
  PIXELFORMAT_UNCOMPRESSED_R5G6B5_def PIXELFORMAT_UNCOMPRESSED_R8G8B8_def
  PIXELFORMAT_UNCOMPRESSED_R5G5B5A1_def PIXELFORMAT_UNCOMPRESSED_R4G4B4A4_def
  PIXELFORMAT_UNCOMPRESSED_R8G8B8A8_def PIXELFORMAT_UNCOMPRESSED_R32_def
  PIXELFORMAT_UNCOMPRESSED_R32G32B32_def PIXELFORMAT_UNCOMPRESSED_R32G32B32A32_def
  PIXELFORMAT_COMPRESSED_DXT1_RGB_def PIXELFORMAT_COMPRESSED_DXT1_RGBA_def
  PIXELFORMAT_COMPRESSED_DXT3_RGBA_def PIXELFORMAT_COMPRESSED_DXT5_RGBA_def
  PIXELFORMAT_COMPRESSED_ETC1_RGB_def PIXELFORMAT_COMPRESSED_ETC2_RGB_def
  PIXELFORMAT_COMPRESSED_ETC2_EAC_RGBA_def PIXELFORMAT_COMPRESSED_PVRT_RGB_def
  PIXELFORMAT_COMPRESSED_PVRT_RGBA_def PIXELFORMAT_COMPRESSED_ASTC_4x4_RGBA_def
  PIXELFORMAT_COMPRESSED_ASTC_8x8_RGBA_def

text \<open>
  C's \<open>int\<close> is 32 bits wide and its overflow is undefined: \<open>int32\<close> lets a value pass
  when it fits.  C's \<open>/\<close> truncates towards zero.
\<close>

definition int32 :: "int \<Rightarrow> int option" where
  "int32 v = (if - (2 ^ 31) \<le> v \<and> v < 2 ^ 31 then Some v else None)"

definition c_div :: "int \<Rightarrow> int \<Rightarrow> int" where
  "c_div n d = sgn n * sgn d * (\<bar>n\<bar> div \<bar>d\<bar>)"

definition GetPixelDataSize :: "int \<Rightarrow> int \<Rightarrow> int \<Rightarrow> int option" where
  "GetPixelDataSize width height format = do {
     let bpp =
       (if format = PIXELFORMAT_UNCOMPRESSED_GRAYSCALE then 8
        else if format = PIXELFORMAT_UNCOMPRESSED_GRAY_ALPHA
              \<or> format = PIXELFORMAT_UNCOMPRESSED_R5G6B5
              \<or> format = PIXELFORMAT_UNCOMPRESSED_R5G5B5A1
              \<or> format = PIXELFORMAT_UNCOMPRESSED_R4G4B4A4 then 16
        else if format = PIXELFORMAT_UNCOMPRESSED_R8G8B8A8 then 32
        else if format = PIXELFORMAT_UNCOMPRESSED_R8G8B8 then 24
        else if format = PIXELFORMAT_UNCOMPRESSED_R32 then 32
        else if format = PIXELFORMAT_UNCOMPRESSED_R32G32B32 then 32 * 3
        else if format = PIXELFORMAT_UNCOMPRESSED_R32G32B32A32 then 32 * 4
        else if format = PIXELFORMAT_COMPRESSED_DXT1_RGB
              \<or> format = PIXELFORMAT_COMPRESSED_DXT1_RGBA
              \<or> format = PIXELFORMAT_COMPRESSED_ETC1_RGB
              \<or> format = PIXELFORMAT_COMPRESSED_ETC2_RGB
              \<or> format = PIXELFORMAT_COMPRESSED_PVRT_RGB
              \<or> format = PIXELFORMAT_COMPRESSED_PVRT_RGBA then 4
        else if format = PIXELFORMAT_COMPRESSED_DXT3_RGBA
              \<or> format = PIXELFORMAT_COMPRESSED_DXT5_RGBA
              \<or> format = PIXELFORMAT_COMPRESSED_ETC2_EAC_RGBA
              \<or> format = PIXELFORMAT_COMPRESSED_ASTC_4x4_RGBA then 8
        else if format = PIXELFORMAT_COMPRESSED_ASTC_8x8_RGBA then 2
        else (0::int));
     area \<leftarrow> int32 (width * height);
     bits \<leftarrow> int32 (area * bpp);
     let dataSize = c_div bits 8;
     Some (if width < 4 \<and> height < 4
           then (if format \<ge> PIXELFORMAT_COMPRESSED_DXT1_RGB \<and> format < PIXELFORMAT_COMPRESSED_DXT3_RGBA then 8
                 else if format \<ge> PIXELFORMAT_COMPRESSED_DXT3_RGBA \<and> format < PIXELFORMAT_COMPRESSED_ASTC_8x8_RGBA then 16
                 else dataSize)
           else dataSize)
   }"

text \<open>
  The bits per pixel of each format as the specification lists them (section 3), for the
  statements about \<open>GetPixelDataSize\<close>; a value that is no format has none.
\<close>

definition format_bpp :: "int \<Rightarrow> int" where
  "format_bpp format =
     (if format = PIXELFORMAT_UNCOMPRESSED_GRAYSCALE then 8
      else if format \<in> {PIXELFORMAT_UNCOMPRESSED_GRAY_ALPHA, PIXELFORMAT_UNCOMPRESSED_R5G6B5,
                          PIXELFORMAT_UNCOMPRESSED_R5G5B5A1, PIXELFORMAT_UNCOMPRESSED_R4G4B4A4} then 16
      else if format = PIXELFORMAT_UNCOMPRESSED_R8G8B8 then 24
      else if format \<in> {PIXELFORMAT_UNCOMPRESSED_R8G8B8A8, PIXELFORMAT_UNCOMPRESSED_R32} then 32
      else if format = PIXELFORMAT_UNCOMPRESSED_R32G32B32 then 96
      else if format = PIXELFORMAT_UNCOMPRESSED_R32G32B32A32 then 128
      else if format \<in> {PIXELFORMAT_COMPRESSED_DXT1_RGB, PIXELFORMAT_COMPRESSED_DXT1_RGBA,
                          PIXELFORMAT_COMPRESSED_ETC1_RGB, PIXELFORMAT_COMPRESSED_ETC2_RGB,
                          PIXELFORMAT_COMPRESSED_PVRT_RGB, PIXELFORMAT_COMPRESSED_PVRT_RGBA} then 4
      else if format \<in> {PIXELFORMAT_COMPRESSED_DXT3_RGBA, PIXELFORMAT_COMPRESSED_DXT5_RGBA,
                          PIXELFORMAT_COMPRESSED_ETC2_EAC_RGBA, PIXELFORMAT_COMPRESSED_ASTC_4x4_RGBA} then 8
      else if format = PIXELFORMAT_COMPRESSED_ASTC_8x8_RGBA then 2
      else 0)"

section \<open>Images, rectangles and memory\<close>

text \<open>
  \<open>data\<close> is the pixel buffer, \<open>None\<close> for the null pointer.  The fields of a Rectangle
  and of a Vector2 are C floats; they are integers here, which is exact for the rectangles
  with whole-numbered fields below \<open>2^24\<close> in magnitude: floats hold these numbers, their
  sums and their differences exactly, so \<open>+=\<close>, the comparisons and the casts to int of the
  geometry code are the integer operations.  ImageResizeCanvas builds its rectangle from
  ints of any size: there the conversions to float round, and the int arithmetic is
  checked for overflow (section ImageResizeCanvas).
\<close>

record Image =
  data :: "byte list option"
  width :: int
  height :: int
  mipmaps :: int
  format :: int

record Rectangle =
  rec_x :: int
  rec_y :: int
  rec_width :: int
  rec_height :: int

record Vector2 =
  v2_x :: int
  v2_y :: int

text \<open>
  \<open>malloc\<close> of a negative int, converted to a huge \<open>size_t\<close>, fails and returns the null
  pointer; otherwise the block holds indeterminate bytes, here the values of an arbitrary
  function \<open>uninit\<close>.  \<open>calloc\<close> returns zeroed bytes.
\<close>

definition RL_MALLOC :: "(nat \<Rightarrow> byte) \<Rightarrow> int \<Rightarrow> byte list option" where
  "RL_MALLOC uninit n = (if n < 0 then None else Some (map uninit [0..<nat n]))"

definition RL_CALLOC :: "int \<Rightarrow> int \<Rightarrow> byte list option" where
  "RL_CALLOC n sz = (if n * sz < 0 then None else Some (replicate (nat (n * sz)) 0))"

text \<open>
  \<open>memcpy(dst + doff, src + soff, n)\<close>: undefined when the length is negative (a huge
  \<open>size_t\<close>) or when either range leaves its buffer.
\<close>

definition memcpy :: "byte list \<Rightarrow> int \<Rightarrow> byte list \<Rightarrow> int \<Rightarrow> int \<Rightarrow> byte list option" where
  "memcpy dst doff src soff n =
     (if 0 \<le> n \<and> 0 \<le> doff \<and> 0 \<le> soff
         \<and> doff + n \<le> int (length dst) \<and> soff + n \<le> int (length src)
      then Some (take (nat doff) dst @ take (nat n) (drop (nat soff) src) @ drop (nat (doff + n)) dst)
      else None)"

text \<open>\<open>for (i = i0; i < n; i++) body\<close>, the body working on a state and possibly failing.\<close>

function for_loop :: "int \<Rightarrow> int \<Rightarrow> (int \<Rightarrow> 's \<Rightarrow> 's option) \<Rightarrow> 's \<Rightarrow> 's option" where
  "for_loop i n body s = (if i < n then body i s \<bind> for_loop (i + 1) n body else Some s)"
  by pat_completeness auto
termination
  by (relation "measure (\<lambda>(i, n, body, s). nat (n - i))") auto

declare for_loop.simps [simp del]

section \<open>ImageCrop\<close>

definition ImageCrop :: "(nat \<Rightarrow> byte) \<Rightarrow> Image \<Rightarrow> Rectangle \<Rightarrow> Image option" where
  "ImageCrop uninit img crop0 =
    (if data img = None \<or> width img = 0 \<or> height img = 0 then Some img
     else
       let crop1 = (if rec_x crop0 < 0
                    then crop0\<lparr>rec_width := rec_width crop0 + rec_x crop0, rec_x := 0\<rparr> else crop0);
           crop2 = (if rec_y crop1 < 0
                    then crop1\<lparr>rec_height := rec_height crop1 + rec_y crop1, rec_y := 0\<rparr> else crop1);
           crop3 = (if rec_x crop2 + rec_width crop2 > width img
                    then crop2\<lparr>rec_width := width img - rec_x crop2\<rparr> else crop2);
           crop = (if rec_y crop3 + rec_height crop3 > height img
                   then crop3\<lparr>rec_height := height img - rec_y crop3\<rparr> else crop3)
       in if rec_x crop > width img \<or> rec_y crop > height img then Some img
          else if format img \<ge> PIXELFORMAT_COMPRESSED_DXT1_RGB then Some img
          else do {
            bytesPerPixel \<leftarrow> GetPixelDataSize 1 1 (format img);
            let croppedData = RL_MALLOC uninit (rec_width crop * rec_height crop * bytesPerPixel);
            (croppedData', offsetSize') \<leftarrow>
              for_loop (rec_y crop) (rec_y crop + rec_height crop)
                (\<lambda>y (cropped, offsetSize). do {
                   dst \<leftarrow> cropped;
                   src \<leftarrow> data img;
                   dst' \<leftarrow> memcpy dst offsetSize
                            src ((y * width img + rec_x crop) * bytesPerPixel)
                            (rec_width crop * bytesPerPixel);
                   Some (Some dst', offsetSize + rec_width crop * bytesPerPixel)
                 })
                (croppedData, 0);
            Some (img\<lparr>data := croppedData', width := rec_width crop, height := rec_height crop\<rparr>)
          })"

section \<open>Single-precision floats\<close>

text \<open>
  A C \<open>float\<close> is an IEEE 754 binary32 number: \<open>Finite s m e\<close> is \<open>(-1)^s * m * 2^e\<close>
  with \<open>m < 2^24\<close> and \<open>-149 \<le> e \<le> 104\<close>, normalised (\<open>2^23 \<le> m\<close>) unless \<open>e = -149\<close>.
  Every operation rounds its exact result to the nearest float, ties to even, one
  operation at a time (no fused multiply-add, no wider intermediate precision); this is
  what a build for x86-64 computes.  The payload of a NaN is not modelled.
\<close>

datatype float = Finite bool int int | Infinity bool | NaN

function bitlen :: "int \<Rightarrow> int" where
  "bitlen n = (if n \<le> 0 then 0 else 1 + bitlen (n div 2))"
  by pat_completeness auto
termination
  by (relation "measure nat") auto

declare bitlen.simps [simp del]

text \<open>
  \<open>float_round s n d x\<close> is the float nearest to \<open>(-1)^s * (n/d) * 2^x\<close>, for \<open>n \<ge> 0\<close> and
  \<open>d > 0\<close>: a mantissa of 24 bits, or fewer at the smallest exponent -149 (subnormal), and
  infinity beyond the largest exponent 104.
\<close>

definition float_round :: "bool \<Rightarrow> int \<Rightarrow> int \<Rightarrow> int \<Rightarrow> float" where
  "float_round s n d x =
     (if n = 0 then Finite s 0 (- 149)
      else
        let e0 = bitlen n - bitlen d + x - 24;
            e1 = (if n * 2 ^ nat (x - e0) \<ge> 2 ^ 24 * d * 2 ^ nat (e0 - x) then e0 + 1 else e0);
            e = max e1 (- 149);
            N = n * 2 ^ nat (x - e);
            D = d * 2 ^ nat (e - x);
            m0 = N div D;
            rest = N mod D;
            m = (if 2 * rest > D \<or> (2 * rest = D \<and> odd m0) then m0 + 1 else m0);
            e' = (if m = 2 ^ 24 then e + 1 else e);
            m' = (if m = 2 ^ 24 then 2 ^ 23 else m)
        in if e' > 104 then Infinity s else Finite s m' e')"

text \<open>The bit pattern of a float in memory, and the float of a bit pattern.\<close>

definition float_bits :: "float \<Rightarrow> 32 word" where
  "float_bits f =
     (case f of
        Finite s m e \<Rightarrow>
          (if s then push_bit 31 1 else 0)
            OR (if m < 2 ^ 23 then word_of_int m
                else push_bit 23 (word_of_int (e + 150)) OR word_of_int (m - 2 ^ 23))
      | Infinity s \<Rightarrow> (if s then push_bit 31 1 else 0) OR push_bit 23 255
      | NaN \<Rightarrow> push_bit 22 511)"

definition float_of_bits :: "32 word \<Rightarrow> float" where
  "float_of_bits w =
     (let s = bit w 31; e = uint (take_bit 8 (drop_bit 23 w)); m = uint (take_bit 23 w)
      in if e = 255 then (if m = 0 then Infinity s else NaN)
         else if e = 0 then Finite s m (- 149)
         else Finite s (2 ^ 23 + m) (e - 150))"

definition float_of_int :: "int \<Rightarrow> float" where
  "float_of_int i = float_round (i < 0) \<bar>i\<bar> 1 0"

definition float_lit :: "int \<Rightarrow> int \<Rightarrow> float" where
  \<comment> \<open>the literal of the decimal fraction \<open>n/d\<close>\<close>
  "float_lit n d = float_round False n d 0"

fun fmul :: "float \<Rightarrow> float \<Rightarrow> float" where
  "fmul (Finite s1 m1 e1) (Finite s2 m2 e2) = float_round (s1 \<noteq> s2) (m1 * m2) 1 (e1 + e2)"
| "fmul (Finite s1 m1 e1) (Infinity s2) = (if m1 = 0 then NaN else Infinity (s1 \<noteq> s2))"
| "fmul (Infinity s1) (Finite s2 m2 e2) = (if m2 = 0 then NaN else Infinity (s1 \<noteq> s2))"
| "fmul (Infinity s1) (Infinity s2) = Infinity (s1 \<noteq> s2)"
| "fmul _ _ = NaN"

fun fdiv :: "float \<Rightarrow> float \<Rightarrow> float" where
  "fdiv (Finite s1 m1 e1) (Finite s2 m2 e2) =
     (if m2 = 0 then (if m1 = 0 then NaN else Infinity (s1 \<noteq> s2))
      else float_round (s1 \<noteq> s2) m1 m2 (e1 - e2))"
| "fdiv (Finite s1 m1 e1) (Infinity s2) = Finite (s1 \<noteq> s2) 0 (- 149)"
| "fdiv (Infinity s1) (Finite s2 m2 e2) = Infinity (s1 \<noteq> s2)"
| "fdiv _ _ = NaN"

fun fadd :: "float \<Rightarrow> float \<Rightarrow> float" where
  "fadd (Finite s1 m1 e1) (Finite s2 m2 e2) =
     (let e = min e1 e2;
          v = (if s1 then - m1 else m1) * 2 ^ nat (e1 - e)
            + (if s2 then - m2 else m2) * 2 ^ nat (e2 - e)
      in float_round (if v = 0 then s1 \<and> s2 else v < 0) \<bar>v\<bar> 1 e)"
| "fadd (Finite s1 m1 e1) (Infinity s2) = Infinity s2"
| "fadd (Infinity s1) (Finite s2 m2 e2) = Infinity s1"
| "fadd (Infinity s1) (Infinity s2) = (if s1 = s2 then Infinity s1 else NaN)"
| "fadd _ _ = NaN"

fun fgt :: "float \<Rightarrow> float \<Rightarrow> bool" where
  "fgt (Finite s1 m1 e1) (Finite s2 m2 e2) =
     (let e = min e1 e2
      in (if s1 then - m1 else m1) * 2 ^ nat (e1 - e) > (if s2 then - m2 else m2) * 2 ^ nat (e2 - e))"
| "fgt (Finite s1 m1 e1) (Infinity s2) = s2"
| "fgt (Infinity s1) (Finite s2 m2 e2) = (\<not> s1)"
| "fgt (Infinity s1) (Infinity s2) = (\<not> s1 \<and> s2)"
| "fgt _ _ = False"

text \<open>
  The casts \<open>(unsigned char)f\<close> and \<open>(unsigned char)round(f)\<close>: undefined unless the
  truncated, respectively rounded (halves away from zero), value lies in 0..255.
\<close>

fun float_to_uchar :: "float \<Rightarrow> 8 word option" where
  "float_to_uchar (Finite s m e) =
     (let t = (if e \<ge> 0 then m * 2 ^ nat e else m div 2 ^ nat (- e))
      in if t = 0 then Some 0
         else if s \<or> t > 255 then None
         else Some (word_of_int t))"
| "float_to_uchar _ = None"

fun float_round_to_uchar :: "float \<Rightarrow> 8 word option" where
  "float_round_to_uchar (Finite s m e) =
     (let t = (if e \<ge> 0 then m * 2 ^ nat e else (2 * m + 2 ^ nat (- e)) div (2 * 2 ^ nat (- e)))
      in if t = 0 then Some 0
         else if s \<or> t > 255 then None
         else Some (word_of_int t))"
| "float_round_to_uchar _ = None"

definition color_normalize :: "byte \<Rightarrow> float" where
  \<comment> \<open>\<open>(float)c/255.0f\<close>\<close>
  "color_normalize c = fdiv (float_of_int (uint c)) (float_lit 255 1)"

definition luminance :: "float \<Rightarrow> float \<Rightarrow> float \<Rightarrow> float" where
  \<comment> \<open>\<open>x*0.299f + y*0.587f + z*0.114f\<close>\<close>
  "luminance x y z =
     fadd (fadd (fmul x (float_lit 299 1000)) (fmul y (float_lit 587 1000))) (fmul z (float_lit 114 1000))"

definition PIXELFORMAT_UNCOMPRESSED_R5G5B5A1_ALPHA_THRESHOLD :: int where
  "PIXELFORMAT_UNCOMPRESSED_R5G5B5A1_ALPHA_THRESHOLD = 50"

section \<open>ImageResizeCanvas\<close>

text \<open>
  The arithmetic of this function is kept as C has it.  An \<open>int\<close> expression is undefined
  when its value leaves the 32-bit range (\<open>int32\<close>).  The fields of \<open>srcRec\<close> and \<open>dstPos\<close>
  are floats whose values are whole numbers (conversions of ints, and sums of these): the
  records hold these values, \<open>float_int n\<close> is the value of \<open>(float)n\<close>, the binary32 number
  nearest to \<open>n\<close> (ties to even), a sum of two floats is the \<open>float_int\<close> of the exact sum, and
  the cast \<open>(int)f\<close> is undefined outside the range of \<open>int\<close>.
\<close>

definition float_int :: "int \<Rightarrow> int" where
  "float_int n =
     (let m = \<bar>n\<bar>; e = bitlen m - 24
      in if e \<le> 0 then n
         else
           let q = m div 2 ^ nat e;
               rest = m mod 2 ^ nat e;
               q' = (if 2 * rest > 2 ^ nat e \<or> (2 * rest = 2 ^ nat e \<and> odd q) then q + 1 else q)
           in sgn n * q' * 2 ^ nat e)"

text \<open>\<open>(row*w + col)*bpp\<close> on ints.\<close>

definition c_offset :: "int \<Rightarrow> int \<Rightarrow> int \<Rightarrow> int \<Rightarrow> int option" where
  "c_offset row w col bpp = do {
     p \<leftarrow> int32 (row * w);
     s \<leftarrow> int32 (p + col);
     int32 (s * bpp)
   }"

text \<open>The first part of the function: the source rectangle and the destination position.\<close>

definition ImageResizeCanvas_rects ::
  "Image \<Rightarrow> int \<Rightarrow> int \<Rightarrow> int \<Rightarrow> int \<Rightarrow> (Rectangle \<times> Vector2) option" where
  "ImageResizeCanvas_rects img newWidth newHeight offsetX offsetY = do {
     let srcRec0 = \<lparr>rec_x = 0, rec_y = 0, rec_width = float_int (width img),
                    rec_height = float_int (height img)\<rparr>;
     let dstPos0 = \<lparr>v2_x = float_int offsetX, v2_y = float_int offsetY\<rparr>;
     (srcRec1, dstPos1) \<leftarrow>
       (if offsetX < 0
        then do {
          negX \<leftarrow> int32 (- offsetX);
          Some (srcRec0\<lparr>rec_x := float_int negX,
                         rec_width := float_int (rec_width srcRec0 + float_int offsetX)\<rparr>,
                dstPos0\<lparr>v2_x := 0\<rparr>) }
        else do {
          far \<leftarrow> int32 (offsetX + width img);
          if far > newWidth
          then do {
            rest \<leftarrow> int32 (newWidth - offsetX);
            Some (srcRec0\<lparr>rec_width := float_int rest\<rparr>, dstPos0) }
          else Some (srcRec0, dstPos0) });
     (srcRec2, dstPos) \<leftarrow>
       (if offsetY < 0
        then do {
          negY \<leftarrow> int32 (- offsetY);
          Some (srcRec1\<lparr>rec_y := float_int negY,
                         rec_height := float_int (rec_height srcRec1 + float_int offsetY)\<rparr>,
                dstPos1\<lparr>v2_y := 0\<rparr>) }
        else do {
          far \<leftarrow> int32 (offsetY + height img);
          if far > newHeight
          then do {
            rest \<leftarrow> int32 (newHeight - offsetY);
            Some (srcRec1\<lparr>rec_height := float_int rest\<rparr>, dstPos1) }
          else Some (srcRec1, dstPos1) });
     let srcRec3 = (if float_int newWidth < rec_width srcRec2
                    then srcRec2\<lparr>rec_width := float_int newWidth\<rparr> else srcRec2);
     let srcRec = (if float_int newHeight < rec_height srcRec3
                   then srcRec3\<lparr>rec_height := float_int newHeight\<rparr> else srcRec3);
     Some (srcRec, dstPos)
   }"

text \<open>The body of the loop over the rows: one memcpy, and the step of the offset.\<close>

definition ImageResizeCanvas_row ::
  "Image \<Rightarrow> int \<Rightarrow> Rectangle \<Rightarrow> int \<Rightarrow> int \<Rightarrow> byte list option \<times> int
     \<Rightarrow> (byte list option \<times> int) option" where
  "ImageResizeCanvas_row img newWidth srcRec bytesPerPixel y =
     (\<lambda>(resized, dstOffsetSize). do {
        dst \<leftarrow> resized;
        src \<leftarrow> data img;
        sy \<leftarrow> int32 (rec_y srcRec);
        row \<leftarrow> int32 (y + sy);
        sx \<leftarrow> int32 (rec_x srcRec);
        srcOffset \<leftarrow> c_offset row (width img) sx bytesPerPixel;
        sw \<leftarrow> int32 (rec_width srcRec);
        n \<leftarrow> int32 (sw * bytesPerPixel);
        dst' \<leftarrow> memcpy dst dstOffsetSize src srcOffset n;
        step \<leftarrow> int32 (newWidth * bytesPerPixel);
        dstOffsetSize' \<leftarrow> int32 (dstOffsetSize + step);
        Some (Some dst', dstOffsetSize')
      })"

definition ImageResizeCanvas :: "Image \<Rightarrow> int \<Rightarrow> int \<Rightarrow> int \<Rightarrow> int \<Rightarrow> Color \<Rightarrow> Image option" where
  "ImageResizeCanvas img newWidth newHeight offsetX offsetY fill =
    (if data img = None \<or> width img = 0 \<or> height img = 0 then Some img
     else if format img \<ge> PIXELFORMAT_COMPRESSED_DXT1_RGB then Some img
     else if newWidth \<noteq> width img \<or> newHeight \<noteq> height img then do {
       (srcRec, dstPos) \<leftarrow> ImageResizeCanvas_rects img newWidth newHeight offsetX offsetY;
       bytesPerPixel \<leftarrow> GetPixelDataSize 1 1 (format img);
       area \<leftarrow> int32 (newWidth * newHeight);
       size \<leftarrow> int32 (area * bytesPerPixel);
       let resizedData = RL_CALLOC size 1;
       dy \<leftarrow> int32 (v2_y dstPos);
       dx \<leftarrow> int32 (v2_x dstPos);
       dstOffsetSize0 \<leftarrow> c_offset dy newWidth dx bytesPerPixel;
       rows \<leftarrow> int32 (rec_height srcRec);
       (resizedData', dstOffsetSize') \<leftarrow>
         for_loop 0 rows (ImageResizeCanvas_row img newWidth srcRec bytesPerPixel)
           (resizedData, dstOffsetSize0);
       Some (img\<lparr>data := resizedData', width := newWidth, height := newHeight\<rparr>)
     }
     else Some img)"

section \<open>Typed access to pixel memory\<close>

text \<open>
  Loads and stores through \<open>unsigned char *\<close>, \<open>unsigned short *\<close> and \<open>float *\<close> at a
  byte offset of the buffer, little-endian; an access outside the buffer is undefined.
\<close>

definition load_u8 :: "byte list \<Rightarrow> int \<Rightarrow> byte option" where
  "load_u8 m i = (if 0 \<le> i \<and> i < int (length m) then Some (m ! nat i) else None)"

definition store_u8 :: "byte list \<Rightarrow> int \<Rightarrow> byte \<Rightarrow> byte list option" where
  "store_u8 m i v = (if 0 \<le> i \<and> i < int (length m) then Some (m[nat i := v]) else None)"

definition load_u16 :: "byte list \<Rightarrow> int \<Rightarrow> 16 word option" where
  "load_u16 m i = do {
     lo \<leftarrow> load_u8 m i;
     hi \<leftarrow> load_u8 m (i + 1);
     Some (ucast lo OR push_bit 8 (ucast hi))
   }"

definition store_u16 :: "byte list \<Rightarrow> int \<Rightarrow> 16 word \<Rightarrow> byte list option" where
  "store_u16 m i v = do {
     m1 \<leftarrow> store_u8 m i (ucast v);
     store_u8 m1 (i + 1) (ucast (drop_bit 8 v))
   }"

definition load_f32 :: "byte list \<Rightarrow> int \<Rightarrow> float option" where
  "load_f32 m i = do {
     b0 \<leftarrow> load_u8 m i;
     b1 \<leftarrow> load_u8 m (i + 1);
     b2 \<leftarrow> load_u8 m (i + 2);
     b3 \<leftarrow> load_u8 m (i + 3);
     Some (float_of_bits (ucast b0 OR push_bit 8 (ucast b1) OR push_bit 16 (ucast b2)
                            OR push_bit 24 (ucast b3)))
   }"

definition store_f32 :: "byte list \<Rightarrow> int \<Rightarrow> float \<Rightarrow> byte list option" where
  "store_f32 m i f = do {
     let v = float_bits f;
     m1 \<leftarrow> store_u8 m i (ucast v);
     m2 \<leftarrow> store_u8 m1 (i + 1) (ucast (drop_bit 8 v));
     m3 \<leftarrow> store_u8 m2 (i + 2) (ucast (drop_bit 16 v));
     store_u8 m3 (i + 3) (ucast (drop_bit 24 v))
   }"

section \<open>GetPixelColor and SetPixelColor\<close>

text \<open>
  The pointer argument is a buffer and a byte offset into it.  \<open>scale_channel v mx\<close> is
  the C expression \<open>(unsigned char)(v*255/mx)\<close> on ints.
\<close>

definition scale_channel :: "16 word \<Rightarrow> int \<Rightarrow> byte" where
  "scale_channel v mx = word_of_int (uint v * 255 div mx)"

definition GetPixelColor :: "byte list \<Rightarrow> int \<Rightarrow> int \<Rightarrow> Color option" where
  "GetPixelColor m srcPtr fmt =
    (if fmt = PIXELFORMAT_UNCOMPRESSED_GRAYSCALE then do {
       v \<leftarrow> load_u8 m srcPtr;
       Some \<lparr>r = v, g = v, b = v, a = 255\<rparr> }
     else if fmt = PIXELFORMAT_UNCOMPRESSED_GRAY_ALPHA then do {
       v \<leftarrow> load_u8 m srcPtr;
       al \<leftarrow> load_u8 m (srcPtr + 1);
       Some \<lparr>r = v, g = v, b = v, a = al\<rparr> }
     else if fmt = PIXELFORMAT_UNCOMPRESSED_R5G6B5 then do {
       p \<leftarrow> load_u16 m srcPtr;
       Some \<lparr>r = scale_channel (drop_bit 11 p) 31,
             g = scale_channel (drop_bit 5 p AND 63) 63,
             b = scale_channel (p AND 31) 31,
             a = 255\<rparr> }
     else if fmt = PIXELFORMAT_UNCOMPRESSED_R5G5B5A1 then do {
       p \<leftarrow> load_u16 m srcPtr;
       Some \<lparr>r = scale_channel (drop_bit 11 p) 31,
             g = scale_channel (drop_bit 6 p AND 31) 31,
             b = scale_channel (p AND 31) 31,
             a = (if p AND 1 \<noteq> 0 then 255 else 0)\<rparr> }
     else if fmt = PIXELFORMAT_UNCOMPRESSED_R4G4B4A4 then do {
       p \<leftarrow> load_u16 m srcPtr;
       Some \<lparr>r = scale_channel (drop_bit 12 p) 15,
             g = scale_channel (drop_bit 8 p AND 15) 15,
             b = scale_channel (drop_bit 4 p AND 15) 15,
             a = scale_channel (p AND 15) 15\<rparr> }
     else if fmt = PIXELFORMAT_UNCOMPRESSED_R8G8B8A8 then do {
       c0 \<leftarrow> load_u8 m srcPtr;
       c1 \<leftarrow> load_u8 m (srcPtr + 1);
       c2 \<leftarrow> load_u8 m (srcPtr + 2);
       c3 \<leftarrow> load_u8 m (srcPtr + 3);
       Some \<lparr>r = c0, g = c1, b = c2, a = c3\<rparr> }
     else if fmt = PIXELFORMAT_UNCOMPRESSED_R8G8B8 then do {
       c0 \<leftarrow> load_u8 m srcPtr;
       c1 \<leftarrow> load_u8 m (srcPtr + 1);
       c2 \<leftarrow> load_u8 m (srcPtr + 2);
       Some \<lparr>r = c0, g = c1, b = c2, a = 255\<rparr> }
     else if fmt = PIXELFORMAT_UNCOMPRESSED_R32 then do {
       f0 \<leftarrow> load_f32 m srcPtr;
       v \<leftarrow> float_to_uchar (fmul f0 (float_lit 255 1));
       Some \<lparr>r = v, g = v, b = v, a = 255\<rparr> }
     else if fmt = PIXELFORMAT_UNCOMPRESSED_R32G32B32 then do {
       f0 \<leftarrow> load_f32 m srcPtr;
       f1 \<leftarrow> load_f32 m (srcPtr + 4);
       f2 \<leftarrow> load_f32 m (srcPtr + 8);
       c0 \<leftarrow> float_to_uchar (fmul f0 (float_lit 255 1));
       c1 \<leftarrow> float_to_uchar (fmul f1 (float_lit 255 1));
       c2 \<leftarrow> float_to_uchar (fmul f2 (float_lit 255 1));
       Some \<lparr>r = c0, g = c1, b = c2, a = 255\<rparr> }
     else if fmt = PIXELFORMAT_UNCOMPRESSED_R32G32B32A32 then do {
       f0 \<leftarrow> load_f32 m srcPtr;
       f1 \<leftarrow> load_f32 m (srcPtr + 4);
       f2 \<leftarrow> load_f32 m (srcPtr + 8);
       f3 \<leftarrow> load_f32 m (srcPtr + 12);
       c0 \<leftarrow> float_to_uchar (fmul f0 (float_lit 255 1));
       c1 \<leftarrow> float_to_uchar (fmul f1 (float_lit 255 1));
       c2 \<leftarrow> float_to_uchar (fmul f2 (float_lit 255 1));
       c3 \<leftarrow> float_to_uchar (fmul f3 (float_lit 255 1));
       Some \<lparr>r = c0, g = c1, b = c2, a = c3\<rparr> }
     else Some \<lparr>r = 0, g = 0, b = 0, a = 0\<rparr>)"

text \<open>
  The encoders of a colour, shared by SetPixelColor and ImageDrawPixel, which hold the
  same expressions: the grey level, and the packed 16-bit pixels.
\<close>

definition gray_of :: "Color \<Rightarrow> byte option" where
  "gray_of color =
     float_to_uchar (fmul (luminance (color_normalize (r color)) (color_normalize (g color))
                                      (color_normalize (b color))) (float_lit 255 1))"

definition quantize :: "byte \<Rightarrow> int \<Rightarrow> byte option" where
  \<comment> \<open>\<open>(unsigned char)(round(coln*mx))\<close> for \<open>coln = (float)c/255.0f\<close>\<close>
  "quantize c mx = float_round_to_uchar (fmul (color_normalize c) (float_lit mx 1))"

definition pack_R5G6B5 :: "Color \<Rightarrow> 16 word option" where
  "pack_R5G6B5 color = do {
     r5 \<leftarrow> quantize (r color) 31;
     g6 \<leftarrow> quantize (g color) 63;
     b5 \<leftarrow> quantize (b color) 31;
     Some (push_bit 11 (ucast r5) OR push_bit 5 (ucast g6) OR ucast b5)
   }"

definition pack_R5G5B5A1 :: "Color \<Rightarrow> 16 word option" where
  "pack_R5G5B5A1 color = do {
     r5 \<leftarrow> quantize (r color) 31;
     g5 \<leftarrow> quantize (g color) 31;
     b5 \<leftarrow> quantize (b color) 31;
     let a1 = (if fgt (color_normalize (a color))
                      (fdiv (float_of_int PIXELFORMAT_UNCOMPRESSED_R5G5B5A1_ALPHA_THRESHOLD) (float_lit 255 1))
               then 1 else 0);
     Some (push_bit 11 (ucast r5) OR push_bit 6 (ucast g5) OR push_bit 1 (ucast b5) OR a1)
   }"

definition pack_R4G4B4A4 :: "Color \<Rightarrow> 16 word option" where
  "pack_R4G4B4A4 color = do {
     r4 \<leftarrow> quantize (r color) 15;
     g4 \<leftarrow> quantize (g color) 15;
     b4 \<leftarrow> quantize (b color) 15;
     a4 \<leftarrow> quantize (a color) 15;
     Some (push_bit 12 (ucast r4) OR push_bit 8 (ucast g4) OR push_bit 4 (ucast b4) OR ucast a4)
   }"

definition SetPixelColor :: "byte list \<Rightarrow> int \<Rightarrow> Color \<Rightarrow> int \<Rightarrow> byte list option" where
  "SetPixelColor m dstPtr color fmt =
    (if fmt = PIXELFORMAT_UNCOMPRESSED_GRAYSCALE then do {
       gray \<leftarrow> gray_of color;
       store_u8 m dstPtr gray }
     else if fmt = PIXELFORMAT_UNCOMPRESSED_GRAY_ALPHA then do {
       gray \<leftarrow> gray_of color;
       m1 \<leftarrow> store_u8 m dstPtr gray;
       store_u8 m1 (dstPtr + 1) (a color) }
     else if fmt = PIXELFORMAT_UNCOMPRESSED_R5G6B5 then do {
       p \<leftarrow> pack_R5G6B5 color;
       store_u16 m dstPtr p }
     else if fmt = PIXELFORMAT_UNCOMPRESSED_R5G5B5A1 then do {
       p \<leftarrow> pack_R5G5B5A1 color;
       store_u16 m dstPtr p }
     else if fmt = PIXELFORMAT_UNCOMPRESSED_R4G4B4A4 then do {
       p \<leftarrow> pack_R4G4B4A4 color;
       store_u16 m dstPtr p }
     else if fmt = PIXELFORMAT_UNCOMPRESSED_R8G8B8 then do {
       m1 \<leftarrow> store_u8 m dstPtr (r color);
       m2 \<leftarrow> store_u8 m1 (dstPtr + 1) (g color);
       store_u8 m2 (dstPtr + 2) (b color) }
     else if fmt = PIXELFORMAT_UNCOMPRESSED_R8G8B8A8 then do {
       m1 \<leftarrow> store_u8 m dstPtr (r color);
       m2 \<leftarrow> store_u8 m1 (dstPtr + 1) (g color);
       m3 \<leftarrow> store_u8 m2 (dstPtr + 2) (b color);
       store_u8 m3 (dstPtr + 3) (a color) }
     else Some m)"

section \<open>ImageDrawPixel and ImageDrawRectangleRec\<close>

definition ImageDrawPixel :: "Image \<Rightarrow> int \<Rightarrow> int \<Rightarrow> Color \<Rightarrow> Image option" where
  "ImageDrawPixel dst x y color =
    (if data dst = None \<or> x < 0 \<or> x \<ge> width dst \<or> y < 0 \<or> y \<ge> height dst then Some dst
     else do {
       m \<leftarrow> data dst;
       let i = y * width dst + x;
       m' \<leftarrow>
         (if format dst = PIXELFORMAT_UNCOMPRESSED_GRAYSCALE then do {
            gray \<leftarrow> gray_of color;
            store_u8 m i gray }
          else if format dst = PIXELFORMAT_UNCOMPRESSED_GRAY_ALPHA then do {
            gray \<leftarrow> gray_of color;
            m1 \<leftarrow> store_u8 m (i * 2) gray;
            store_u8 m1 (i * 2 + 1) (a color) }
          else if format dst = PIXELFORMAT_UNCOMPRESSED_R5G6B5 then do {
            p \<leftarrow> pack_R5G6B5 color;
            store_u16 m (2 * i) p }
          else if format dst = PIXELFORMAT_UNCOMPRESSED_R5G5B5A1 then do {
            p \<leftarrow> pack_R5G5B5A1 color;
            store_u16 m (2 * i) p }
          else if format dst = PIXELFORMAT_UNCOMPRESSED_R4G4B4A4 then do {
            p \<leftarrow> pack_R4G4B4A4 color;
            store_u16 m (2 * i) p }
          else if format dst = PIXELFORMAT_UNCOMPRESSED_R8G8B8 then do {
            m1 \<leftarrow> store_u8 m (i * 3) (r color);
            m2 \<leftarrow> store_u8 m1 (i * 3 + 1) (g color);
            store_u8 m2 (i * 3 + 2) (b color) }
          else if format dst = PIXELFORMAT_UNCOMPRESSED_R8G8B8A8 then do {
            m1 \<leftarrow> store_u8 m (i * 4) (r color);
            m2 \<leftarrow> store_u8 m1 (i * 4 + 1) (g color);
            m3 \<leftarrow> store_u8 m2 (i * 4 + 2) (b color);
            store_u8 m3 (i * 4 + 3) (a color) }
          else if format dst = PIXELFORMAT_UNCOMPRESSED_R32 then
            store_f32 m (4 * i)
              (luminance (color_normalize (r color)) (color_normalize (g color)) (color_normalize (b color)))
          else if format dst = PIXELFORMAT_UNCOMPRESSED_R32G32B32 then do {
            m1 \<leftarrow> store_f32 m (4 * (i * 3)) (color_normalize (r color));
            m2 \<leftarrow> store_f32 m1 (4 * (i * 3 + 1)) (color_normalize (g color));
            store_f32 m2 (4 * (i * 3 + 2)) (color_normalize (b color)) }
          else if format dst = PIXELFORMAT_UNCOMPRESSED_R32G32B32A32 then do {
            m1 \<leftarrow> store_f32 m (4 * (i * 4)) (color_normalize (r color));
            m2 \<leftarrow> store_f32 m1 (4 * (i * 4 + 1)) (color_normalize (g color));
            m3 \<leftarrow> store_f32 m2 (4 * (i * 4 + 2)) (color_normalize (b color));
            store_f32 m3 (4 * (i * 4 + 3)) (color_normalize (a color)) }
          else Some m);
       Some (dst\<lparr>data := Some m'\<rparr>)
     })"

definition ImageDrawRectangleRec :: "Image \<Rightarrow> Rectangle \<Rightarrow> Color \<Rightarrow> Image option" where
  "ImageDrawRectangleRec dst rec0 color =
    (if data dst = None \<or> width dst = 0 \<or> height dst = 0 then Some dst
     else
       let rec1 = (if rec_x rec0 < 0
                   then rec0\<lparr>rec_width := rec_width rec0 - rec_x rec0, rec_x := 0\<rparr> else rec0);
           rec2 = (if rec_y rec1 < 0
                   then rec1\<lparr>rec_height := rec_height rec1 - rec_y rec1, rec_y := 0\<rparr> else rec1);
           rec3 = (if rec_width rec2 < 0 then rec2\<lparr>rec_width := 0\<rparr> else rec2);
           rec = (if rec_height rec3 < 0 then rec3\<lparr>rec_height := 0\<rparr> else rec3);
           sy = rec_y rec;
           ey = sy + rec_height rec;
           sx = rec_x rec
       in do {
         bytesPerPixel \<leftarrow> GetPixelDataSize 1 1 (format dst);
         for_loop sy ey
           (\<lambda>y dst1. do {
              dst2 \<leftarrow> ImageDrawPixel dst1 sx y color;
              let bytesOffset = (y * width dst2 + sx) * bytesPerPixel;
              m \<leftarrow> data dst2;
              m' \<leftarrow> for_loop 1 (rec_width rec)
                      (\<lambda>x m1. memcpy m1 (bytesOffset + x * bytesPerPixel) m1 bytesOffset bytesPerPixel)
                      m;
              Some (dst2\<lparr>data := Some m'\<rparr>)
            })
           dst
       })"

section \<open>ImageFormat\<close>

record Vector4 =
  v4_x :: float
  v4_y :: float
  v4_z :: float
  v4_w :: float

text \<open>
  The array of \<open>width*height\<close> Vector4 that LoadImageDataNormalized allocates with malloc:
  a list (empty for the null pointer that a negative count gives), its elements
  indeterminate, read off \<open>uninit\<close>.
\<close>

definition uninit_float :: "(nat \<Rightarrow> byte) \<Rightarrow> nat \<Rightarrow> float" where
  "uninit_float uninit i =
     float_of_bits (ucast (uninit (4 * i)) OR push_bit 8 (ucast (uninit (4 * i + 1)))
        OR push_bit 16 (ucast (uninit (4 * i + 2))) OR push_bit 24 (ucast (uninit (4 * i + 3))))"

definition uninit_pixels :: "(nat \<Rightarrow> byte) \<Rightarrow> int \<Rightarrow> Vector4 list" where
  "uninit_pixels uninit n =
     map (\<lambda>i. \<lparr>v4_x = uninit_float uninit (4 * i), v4_y = uninit_float uninit (4 * i + 1),
                v4_z = uninit_float uninit (4 * i + 2), v4_w = uninit_float uninit (4 * i + 3)\<rparr>)
         [0..<nat n]"

definition unit_scale :: "16 word \<Rightarrow> int \<Rightarrow> float" where
  \<comment> \<open>\<open>(float)v*(1.0f/mx)\<close>\<close>
  "unit_scale v mx = fmul (float_of_int (uint v)) (fdiv (float_lit 1 1) (float_of_int mx))"

definition LoadImageDataNormalized :: "(nat \<Rightarrow> byte) \<Rightarrow> Image \<Rightarrow> Vector4 list option" where
  "LoadImageDataNormalized uninit img =
    (let pixels0 = uninit_pixels uninit (width img * height img);
         fmt = format img
     in if fmt \<ge> PIXELFORMAT_COMPRESSED_DXT1_RGB then Some pixels0
        else do {
          (pixels, k') \<leftarrow>
            for_loop 0 (width img * height img)
              (\<lambda>i (pixels, k). do {
                 m \<leftarrow> data img;
                 if fmt = PIXELFORMAT_UNCOMPRESSED_GRAYSCALE then do {
                   v \<leftarrow> load_u8 m i;
                   Some (pixels[nat i := \<lparr>v4_x = color_normalize v, v4_y = color_normalize v,
                                           v4_z = color_normalize v, v4_w = float_lit 1 1\<rparr>], k) }
                 else if fmt = PIXELFORMAT_UNCOMPRESSED_GRAY_ALPHA then do {
                   v \<leftarrow> load_u8 m k;
                   al \<leftarrow> load_u8 m (k + 1);
                   Some (pixels[nat i := \<lparr>v4_x = color_normalize v, v4_y = color_normalize v,
                                           v4_z = color_normalize v, v4_w = color_normalize al\<rparr>], k + 2) }
                 else if fmt = PIXELFORMAT_UNCOMPRESSED_R5G5B5A1 then do {
                   pixel \<leftarrow> load_u16 m (2 * i);
                   Some (pixels[nat i := \<lparr>v4_x = unit_scale (drop_bit 11 (pixel AND 0xF800)) 31,
                                           v4_y = unit_scale (drop_bit 6 (pixel AND 0x07C0)) 31,
                                           v4_z = unit_scale (drop_bit 1 (pixel AND 0x003E)) 31,
                                           v4_w = (if pixel AND 1 = 0 then float_lit 0 1 else float_lit 1 1)\<rparr>],
                         k) }
                 else if fmt = PIXELFORMAT_UNCOMPRESSED_R5G6B5 then do {
                   pixel \<leftarrow> load_u16 m (2 * i);
                   Some (pixels[nat i := \<lparr>v4_x = unit_scale (drop_bit 11 (pixel AND 0xF800)) 31,
                                           v4_y = unit_scale (drop_bit 5 (pixel AND 0x07E0)) 63,
                                           v4_z = unit_scale (pixel AND 0x001F) 31,
                                           v4_w = float_lit 1 1\<rparr>], k) }
                 else if fmt = PIXELFORMAT_UNCOMPRESSED_R4G4B4A4 then do {
                   pixel \<leftarrow> load_u16 m (2 * i);
                   Some (pixels[nat i := \<lparr>v4_x = unit_scale (drop_bit 12 (pixel AND 0xF000)) 15,
                                           v4_y = unit_scale (drop_bit 8 (pixel AND 0x0F00)) 15,
                                           v4_z = unit_scale (drop_bit 4 (pixel AND 0x00F0)) 15,
                                           v4_w = unit_scale (pixel AND 0x000F) 15\<rparr>], k) }
                 else if fmt = PIXELFORMAT_UNCOMPRESSED_R8G8B8A8 then do {
                   c0 \<leftarrow> load_u8 m k;
                   c1 \<leftarrow> load_u8 m (k + 1);
                   c2 \<leftarrow> load_u8 m (k + 2);
                   c3 \<leftarrow> load_u8 m (k + 3);
                   Some (pixels[nat i := \<lparr>v4_x = color_normalize c0, v4_y = color_normalize c1,
                                           v4_z = color_normalize c2, v4_w = color_normalize c3\<rparr>], k + 4) }
                 else if fmt = PIXELFORMAT_UNCOMPRESSED_R8G8B8 then do {
                   c0 \<leftarrow> load_u8 m k;
                   c1 \<leftarrow> load_u8 m (k + 1);
                   c2 \<leftarrow> load_u8 m (k + 2);
                   Some (pixels[nat i := \<lparr>v4_x = color_normalize c0, v4_y = color_normalize c1,
                                           v4_z = color_normalize c2, v4_w = float_lit 1 1\<rparr>], k + 3) }
                 else if fmt = PIXELFORMAT_UNCOMPRESSED_R32 then do {
                   f0 \<leftarrow> load_f32 m (4 * k);
                   Some (pixels[nat i := \<lparr>v4_x = f0, v4_y = float_lit 0 1,
                                           v4_z = float_lit 0 1, v4_w = float_lit 1 1\<rparr>], k) }
                 else if fmt = PIXELFORMAT_UNCOMPRESSED_R32G32B32 then do {
                   f0 \<leftarrow> load_f32 m (4 * k);
                   f1 \<leftarrow> load_f32 m (4 * (k + 1));
                   f2 \<leftarrow> load_f32 m (4 * (k + 2));
                   Some (pixels[nat i := \<lparr>v4_x = f0, v4_y = f1, v4_z = f2, v4_w = float_lit 1 1\<rparr>], k + 3) }
                 else if fmt = PIXELFORMAT_UNCOMPRESSED_R32G32B32A32 then do {
                   f0 \<leftarrow> load_f32 m (4 * k);
                   f1 \<leftarrow> load_f32 m (4 * (k + 1));
                   f2 \<leftarrow> load_f32 m (4 * (k + 2));
                   f3 \<leftarrow> load_f32 m (4 * (k + 3));
                   Some (pixels[nat i := \<lparr>v4_x = f0, v4_y = f1, v4_z = f2, v4_w = f3\<rparr>], k + 4) }
                 else Some (pixels, k)
               })
              (pixels0, 0);
          Some pixels
        })"

text \<open>
  The conversion loops of ImageFormat write the pixel \<open>i\<close> of the new buffer from
  \<open>pixels[i]\<close>; the loops that the C code steps by the channel count with a second counter
  \<open>k\<close> run over \<open>k\<close> here.  \<open>fill_pixels n put buf\<close> is the loop over the \<open>n\<close> pixels, on the
  freshly allocated buffer \<open>buf\<close> (the null pointer when the allocation failed).
\<close>

definition fill_pixels :: "int \<Rightarrow> (int \<Rightarrow> byte list \<Rightarrow> byte list option) \<Rightarrow> byte list option \<Rightarrow> byte list option option" where
  "fill_pixels n put buf =
     for_loop 0 n (\<lambda>i buf1. do { m \<leftarrow> buf1; m' \<leftarrow> put i m; Some (Some m') }) buf"

definition pack_pixel_R5G6B5 :: "Vector4 \<Rightarrow> 16 word option" where
  "pack_pixel_R5G6B5 p = do {
     r5 \<leftarrow> float_round_to_uchar (fmul (v4_x p) (float_lit 31 1));
     g6 \<leftarrow> float_round_to_uchar (fmul (v4_y p) (float_lit 63 1));
     b5 \<leftarrow> float_round_to_uchar (fmul (v4_z p) (float_lit 31 1));
     Some (push_bit 11 (ucast r5) OR push_bit 5 (ucast g6) OR ucast b5)
   }"

definition pack_pixel_R5G5B5A1 :: "Vector4 \<Rightarrow> 16 word option" where
  "pack_pixel_R5G5B5A1 p = do {
     r5 \<leftarrow> float_round_to_uchar (fmul (v4_x p) (float_lit 31 1));
     g5 \<leftarrow> float_round_to_uchar (fmul (v4_y p) (float_lit 31 1));
     b5 \<leftarrow> float_round_to_uchar (fmul (v4_z p) (float_lit 31 1));
     let a1 = (if fgt (v4_w p)
                      (fdiv (float_of_int PIXELFORMAT_UNCOMPRESSED_R5G5B5A1_ALPHA_THRESHOLD) (float_lit 255 1))
               then 1 else 0);
     Some (push_bit 11 (ucast r5) OR push_bit 6 (ucast g5) OR push_bit 1 (ucast b5) OR a1)
   }"

definition pack_pixel_R4G4B4A4 :: "Vector4 \<Rightarrow> 16 word option" where
  "pack_pixel_R4G4B4A4 p = do {
     r4 \<leftarrow> float_round_to_uchar (fmul (v4_x p) (float_lit 15 1));
     g4 \<leftarrow> float_round_to_uchar (fmul (v4_y p) (float_lit 15 1));
     b4 \<leftarrow> float_round_to_uchar (fmul (v4_z p) (float_lit 15 1));
     a4 \<leftarrow> float_round_to_uchar (fmul (v4_w p) (float_lit 15 1));
     Some (push_bit 12 (ucast r4) OR push_bit 8 (ucast g4) OR push_bit 4 (ucast b4) OR ucast a4)
   }"

definition ImageFormat :: "(nat \<Rightarrow> byte) \<Rightarrow> Image \<Rightarrow> int \<Rightarrow> Image option" where
  "ImageFormat uninit img newFormat =
    (if data img = None \<or> width img = 0 \<or> height img = 0 then Some img
     else if newFormat \<noteq> 0 \<and> format img \<noteq> newFormat then
       (if format img < PIXELFORMAT_COMPRESSED_DXT1_RGB \<and> newFormat < PIXELFORMAT_COMPRESSED_DXT1_RGB
        then do {
          pixels \<leftarrow> LoadImageDataNormalized uninit img;
          let n = width img * height img;
          let px = (\<lambda>i. pixels ! nat i);
          let to255 = (\<lambda>f. float_to_uchar (fmul f (float_lit 255 1)));
          newData \<leftarrow>
            (if newFormat = PIXELFORMAT_UNCOMPRESSED_GRAYSCALE then
               fill_pixels n
                 (\<lambda>i m. do {
                    v \<leftarrow> to255 (luminance (v4_x (px i)) (v4_y (px i)) (v4_z (px i)));
                    store_u8 m i v })
                 (RL_MALLOC uninit (n * 1))
             else if newFormat = PIXELFORMAT_UNCOMPRESSED_GRAY_ALPHA then
               fill_pixels n
                 (\<lambda>k m. do {
                    v \<leftarrow> to255 (luminance (v4_x (px k)) (v4_y (px k)) (v4_z (px k)));
                    al \<leftarrow> to255 (v4_w (px k));
                    m1 \<leftarrow> store_u8 m (2 * k) v;
                    store_u8 m1 (2 * k + 1) al })
                 (RL_MALLOC uninit (n * 2 * 1))
             else if newFormat = PIXELFORMAT_UNCOMPRESSED_R5G6B5 then
               fill_pixels n
                 (\<lambda>i m. do { p \<leftarrow> pack_pixel_R5G6B5 (px i); store_u16 m (2 * i) p })
                 (RL_MALLOC uninit (n * 2))
             else if newFormat = PIXELFORMAT_UNCOMPRESSED_R8G8B8 then
               fill_pixels n
                 (\<lambda>k m. do {
                    c0 \<leftarrow> to255 (v4_x (px k));
                    c1 \<leftarrow> to255 (v4_y (px k));
                    c2 \<leftarrow> to255 (v4_z (px k));
                    m1 \<leftarrow> store_u8 m (3 * k) c0;
                    m2 \<leftarrow> store_u8 m1 (3 * k + 1) c1;
                    store_u8 m2 (3 * k + 2) c2 })
                 (RL_MALLOC uninit (n * 3 * 1))
             else if newFormat = PIXELFORMAT_UNCOMPRESSED_R5G5B5A1 then
               fill_pixels n
                 (\<lambda>i m. do { p \<leftarrow> pack_pixel_R5G5B5A1 (px i); store_u16 m (2 * i) p })
                 (RL_MALLOC uninit (n * 2))
             else if newFormat = PIXELFORMAT_UNCOMPRESSED_R4G4B4A4 then
               fill_pixels n
                 (\<lambda>i m. do { p \<leftarrow> pack_pixel_R4G4B4A4 (px i); store_u16 m (2 * i) p })
                 (RL_MALLOC uninit (n * 2))
             else if newFormat = PIXELFORMAT_UNCOMPRESSED_R8G8B8A8 then
               fill_pixels n
                 (\<lambda>k m. do {
                    c0 \<leftarrow> to255 (v4_x (px k));
                    c1 \<leftarrow> to255 (v4_y (px k));
                    c2 \<leftarrow> to255 (v4_z (px k));
                    c3 \<leftarrow> to255 (v4_w (px k));
                    m1 \<leftarrow> store_u8 m (4 * k) c0;
                    m2 \<leftarrow> store_u8 m1 (4 * k + 1) c1;
                    m3 \<leftarrow> store_u8 m2 (4 * k + 2) c2;
                    store_u8 m3 (4 * k + 3) c3 })
                 (RL_MALLOC uninit (n * 4 * 1))
             else if newFormat = PIXELFORMAT_UNCOMPRESSED_R32 then
               fill_pixels n
                 (\<lambda>i m. store_f32 m (4 * i) (luminance (v4_x (px i)) (v4_y (px i)) (v4_z (px i))))
                 (RL_MALLOC uninit (n * 4))
             else if newFormat = PIXELFORMAT_UNCOMPRESSED_R32G32B32 then
               fill_pixels n
                 (\<lambda>k m. do {
                    m1 \<leftarrow> store_f32 m (4 * (3 * k)) (v4_x (px k));
                    m2 \<leftarrow> store_f32 m1 (4 * (3 * k + 1)) (v4_y (px k));
                    store_f32 m2 (4 * (3 * k + 2)) (v4_z (px k)) })
                 (RL_MALLOC uninit (n * 3 * 4))
             else if newFormat = PIXELFORMAT_UNCOMPRESSED_R32G32B32A32 then
               fill_pixels n
                 (\<lambda>k m. do {
                    m1 \<leftarrow> store_f32 m (4 * (4 * k)) (v4_x (px k));
                    m2 \<leftarrow> store_f32 m1 (4 * (4 * k + 1)) (v4_y (px k));
                    m3 \<leftarrow> store_f32 m2 (4 * (4 * k + 2)) (v4_z (px k));
                    store_f32 m3 (4 * (4 * k + 3)) (v4_w (px k)) })
                 (RL_MALLOC uninit (n * 4 * 4))
             else Some None);
          Some (img\<lparr>data := newData, format := newFormat,
                    mipmaps := (if mipmaps img > 1 then 1 else mipmaps img)\<rparr>)
        }
        else Some img)
     else Some img)"

section \<open>ImageFromImage and ImageDraw\<close>

definition ImageFromImage :: "Image \<Rightarrow> Rectangle \<Rightarrow> Image option" where
  "ImageFromImage img rec = do {
     bytesPerPixel \<leftarrow> GetPixelDataSize 1 1 (format img);
     let result = \<lparr>data = RL_CALLOC (rec_width rec * rec_height rec * bytesPerPixel) 1,
                   width = rec_width rec, height = rec_height rec, mipmaps = 1, format = format img\<rparr>;
     buf \<leftarrow> for_loop 0 (rec_height rec)
              (\<lambda>y buf1. do {
                 dst \<leftarrow> buf1;
                 src \<leftarrow> data img;
                 dst' \<leftarrow> memcpy dst (y * rec_width rec * bytesPerPixel)
                          src (((y + rec_y rec) * width img + rec_x rec) * bytesPerPixel)
                          (rec_width rec * bytesPerPixel);
                 Some (Some dst') })
              (data result);
     Some (result\<lparr>data := buf\<rparr>)
   }"

text \<open>
  ImageDraw, in the two parts of its body.  ImageResize resamples with the external
  stb_image_resize library, which is not part of this repository: it is the parameter
  \<open>resize\<close>.  The source image is a buffer of its own (it does not share memory with the
  destination).

  \<open>ImageDraw_clip\<close> is the first part: it clamps the source rectangle to the source, makes
  the resampled copy of the source when the rectangles differ in size, and clamps against
  the destination; it yields the source image to read from and the two rectangles.
\<close>

definition ImageDraw_clip ::
  "(Image \<Rightarrow> int \<Rightarrow> int \<Rightarrow> Image option) \<Rightarrow> Image \<Rightarrow> Image \<Rightarrow> Rectangle \<Rightarrow> Rectangle
     \<Rightarrow> (Image \<times> Rectangle \<times> Rectangle) option" where
  "ImageDraw_clip resize dst src srcRec0 dstRec0 =
    (let srcRec1 = (if rec_x srcRec0 < 0
                    then srcRec0\<lparr>rec_width := rec_width srcRec0 + rec_x srcRec0, rec_x := 0\<rparr> else srcRec0);
         srcRec2 = (if rec_y srcRec1 < 0
                    then srcRec1\<lparr>rec_height := rec_height srcRec1 + rec_y srcRec1, rec_y := 0\<rparr> else srcRec1);
         srcRec3 = (if rec_x srcRec2 + rec_width srcRec2 > width src
                    then srcRec2\<lparr>rec_width := width src - rec_x srcRec2\<rparr> else srcRec2);
         srcRec4 = (if rec_y srcRec3 + rec_height srcRec3 > height src
                    then srcRec3\<lparr>rec_height := height src - rec_y srcRec3\<rparr> else srcRec3)
     in do {
       (srcPtr, srcRec5) \<leftarrow>
         (if rec_width srcRec4 \<noteq> rec_width dstRec0 \<or> rec_height srcRec4 \<noteq> rec_height dstRec0
          then do {
            srcMod0 \<leftarrow> ImageFromImage src srcRec4;
            srcMod \<leftarrow> resize srcMod0 (rec_width dstRec0) (rec_height dstRec0);
            Some (srcMod, \<lparr>rec_x = 0, rec_y = 0, rec_width = width srcMod, rec_height = height srcMod\<rparr>) }
          else Some (src, srcRec4));
       let (srcRec6, dstRec1) =
         (if rec_x dstRec0 < 0
          then (srcRec5\<lparr>rec_x := - rec_x dstRec0, rec_width := rec_width srcRec5 + rec_x dstRec0\<rparr>,
                dstRec0\<lparr>rec_x := 0\<rparr>)
          else if rec_x dstRec0 + rec_width srcRec5 > width dst
          then (srcRec5\<lparr>rec_width := width dst - rec_x dstRec0\<rparr>, dstRec0)
          else (srcRec5, dstRec0));
       let (srcRec7, dstRec) =
         (if rec_y dstRec1 < 0
          then (srcRec6\<lparr>rec_y := - rec_y dstRec1, rec_height := rec_height srcRec6 + rec_y dstRec1\<rparr>,
                dstRec1\<lparr>rec_y := 0\<rparr>)
          else if rec_y dstRec1 + rec_height srcRec6 > height dst
          then (srcRec6\<lparr>rec_height := height dst - rec_y dstRec1\<rparr>, dstRec1)
          else (srcRec6, dstRec1));
       let srcRec8 = (if width dst < rec_width srcRec7 then srcRec7\<lparr>rec_width := width dst\<rparr> else srcRec7);
       let srcRec = (if height dst < rec_height srcRec8 then srcRec8\<lparr>rec_height := height dst\<rparr> else srcRec8);
       Some (srcPtr, srcRec, dstRec)
     })"

text \<open>
  \<open>ImageDraw_blit fast\<close> is the second part, the blit row by row, with its two fast paths
  (no blend for a source without alpha under an opaque tint, one memcpy per row for equal
  formats) taken only when \<open>fast\<close> holds: the code is \<open>ImageDraw_blit True\<close>, and
  \<open>ImageDraw_blit False\<close> decodes, blends and encodes every pixel.
\<close>

definition ImageDraw_blit :: "bool \<Rightarrow> Image \<Rightarrow> Image \<Rightarrow> Rectangle \<Rightarrow> Rectangle \<Rightarrow> Color \<Rightarrow> Image option" where
  "ImageDraw_blit fast dst srcPtr srcRec dstRec tint = do {
     let blendRequired =
       (\<not> (fast \<and> a tint = 255
            \<and> (format srcPtr = PIXELFORMAT_UNCOMPRESSED_GRAYSCALE
                 \<or> format srcPtr = PIXELFORMAT_UNCOMPRESSED_R8G8B8
                 \<or> format srcPtr = PIXELFORMAT_UNCOMPRESSED_R5G6B5)));
     strideDst \<leftarrow> GetPixelDataSize (width dst) 1 (format dst);
     let bytesPerPixelDst = c_div strideDst (width dst);
     strideSrc \<leftarrow> GetPixelDataSize (width srcPtr) 1 (format srcPtr);
     bytesPerPixelSrc \<leftarrow> (if width srcPtr = 0 then None else Some (c_div strideSrc (width srcPtr)));
     let pSrcBase0 = (rec_y srcRec * width srcPtr + rec_x srcRec) * bytesPerPixelSrc;
     let pDstBase0 = (rec_y dstRec * width dst + rec_x dstRec) * bytesPerPixelDst;
     dstData \<leftarrow> data dst;
     (dstData', pSrcBase', pDstBase') \<leftarrow>
       for_loop 0 (rec_height srcRec)
         (\<lambda>y (m, pSrcBase, pDstBase). do {
            srcData \<leftarrow> data srcPtr;
            m' \<leftarrow>
              (if \<not> blendRequired \<and> format srcPtr = format dst
               then memcpy m pDstBase srcData pSrcBase (rec_width srcRec * bytesPerPixelSrc)
               else do {
                 (m1, pSrc', pDst') \<leftarrow>
                   for_loop 0 (rec_width srcRec)
                     (\<lambda>x (m1, pSrc, pDst). do {
                        colSrc \<leftarrow> GetPixelColor srcData pSrc (format srcPtr);
                        colDst \<leftarrow> GetPixelColor m1 pDst (format dst);
                        let blend = (if blendRequired then ColorAlphaBlend colDst colSrc tint else colSrc);
                        m2 \<leftarrow> SetPixelColor m1 pDst blend (format dst);
                        Some (m2, pSrc + bytesPerPixelSrc, pDst + bytesPerPixelDst) })
                     (m, pSrcBase, pDstBase);
                 Some m1 });
            Some (m', pSrcBase + strideSrc, pDstBase + strideDst) })
         (dstData, pSrcBase0, pDstBase0);
     Some (dst\<lparr>data := Some dstData'\<rparr>)
   }"

definition ImageDraw_paths ::
  "bool \<Rightarrow> (Image \<Rightarrow> int \<Rightarrow> int \<Rightarrow> Image option) \<Rightarrow> Image \<Rightarrow> Image \<Rightarrow> Rectangle \<Rightarrow> Rectangle \<Rightarrow> Color
     \<Rightarrow> Image option" where
  "ImageDraw_paths fast resize dst src srcRec dstRec tint =
    (if data dst = None \<or> width dst = 0 \<or> height dst = 0
        \<or> data src = None \<or> width src = 0 \<or> height src = 0 then Some dst
     else if format dst \<ge> PIXELFORMAT_COMPRESSED_DXT1_RGB then Some dst
     else do {
       (srcPtr, srcRec', dstRec') \<leftarrow> ImageDraw_clip resize dst src srcRec dstRec;
       ImageDraw_blit fast dst srcPtr srcRec' dstRec' tint
     })"

definition ImageDraw ::
  "(Image \<Rightarrow> int \<Rightarrow> int \<Rightarrow> Image option) \<Rightarrow> Image \<Rightarrow> Image \<Rightarrow> Rectangle \<Rightarrow> Rectangle \<Rightarrow> Color
     \<Rightarrow> Image option" where
  "ImageDraw = ImageDraw_paths True"

text \<open>
  For the statements: the compressed formats, and the grey levels that SetPixelColor writes
  back unchanged when it encodes the colour GetPixelColor decoded from them.
\<close>

definition is_compressed :: "int \<Rightarrow> bool" where
  "is_compressed f = (PIXELFORMAT_COMPRESSED_DXT1_RGB \<le> f \<and> f \<le> PIXELFORMAT_COMPRESSED_ASTC_8x8_RGBA)"

definition gray_exact :: "byte \<Rightarrow> bool" where
  "gray_exact v = (gray_of \<lparr>r = v, g = v, b = v, a = 255\<rparr> = Some v)"

definition gray_exact_image :: "Image \<Rightarrow> bool" where
  "gray_exact_image img = (case data img of None \<Rightarrow> True | Some d \<Rightarrow> list_all gray_exact d)"

text \<open>
  The pieces of the blit, named for the proofs: the body of the loop over the pixels of a
  row, the body of the loop over the rows, and the work of the first on one pixel under a
  white tint (decode the source pixel and the destination pixel, blend, encode).
\<close>

definition blit_pixel ::
  "bool \<Rightarrow> Color \<Rightarrow> int \<Rightarrow> int \<Rightarrow> byte list \<Rightarrow> int \<Rightarrow> int \<Rightarrow> int
     \<Rightarrow> byte list \<times> int \<times> int \<Rightarrow> (byte list \<times> int \<times> int) option" where
  "blit_pixel blendRequired tint fs fd srcData bS bD x =
     (\<lambda>(m1, pSrc, pDst). do {
        colSrc \<leftarrow> GetPixelColor srcData pSrc fs;
        colDst \<leftarrow> GetPixelColor m1 pDst fd;
        let blend = (if blendRequired then ColorAlphaBlend colDst colSrc tint else colSrc);
        m2 \<leftarrow> SetPixelColor m1 pDst blend fd;
        Some (m2, pSrc + bS, pDst + bD) })"

definition blit_row ::
  "bool \<Rightarrow> Color \<Rightarrow> Image \<Rightarrow> Image \<Rightarrow> int \<Rightarrow> int \<Rightarrow> int \<Rightarrow> int \<Rightarrow> int \<Rightarrow> int
     \<Rightarrow> byte list \<times> int \<times> int \<Rightarrow> (byte list \<times> int \<times> int) option" where
  "blit_row blendRequired tint dst srcPtr w bS bD strideSrc strideDst y =
     (\<lambda>(m, pSrcBase, pDstBase). do {
        srcData \<leftarrow> data srcPtr;
        m' \<leftarrow>
          (if \<not> blendRequired \<and> format srcPtr = format dst
           then memcpy m pDstBase srcData pSrcBase (w * bS)
           else do {
             (m1, pSrc', pDst') \<leftarrow>
               for_loop 0 w (blit_pixel blendRequired tint (format srcPtr) (format dst) srcData bS bD)
                 (m, pSrcBase, pDstBase);
             Some m1 });
        Some (m', pSrcBase + strideSrc, pDstBase + strideDst) })"

definition reencode :: "int \<Rightarrow> byte list \<Rightarrow> int \<Rightarrow> byte list \<Rightarrow> int \<Rightarrow> byte list option" where
  "reencode f m pD s pS =
     GetPixelColor s pS f \<bind> (\<lambda>cs. GetPixelColor m pD f \<bind>
       (\<lambda>cd. SetPixelColor m pD (ColorAlphaBlend cd cs WHITE) f))"

text \<open>The number of pixels of \<open>bpp\<close> bytes that differ between two buffers.\<close>

definition changed_pixels :: "byte list \<Rightarrow> byte list \<Rightarrow> nat \<Rightarrow> nat" where
  "changed_pixels old new bpp =
     length (filter (\<lambda>i. take bpp (drop (i * bpp) old) \<noteq> take bpp (drop (i * bpp) new))
                    [0..<length old div bpp])"

section \<open>Loops and memory copies\<close>

lemma for_loop_step: "i < n \<Longrightarrow> for_loop i n body s = body i s \<bind> for_loop (i + 1) n body"
  by (subst for_loop.simps) simp

lemma for_loop_done: "\<not> i < n \<Longrightarrow> for_loop i n body s = Some s"
  by (subst for_loop.simps) simp

lemma for_loop_rule:
  assumes init: "I i s"
    and step: "\<And>j t. i \<le> j \<Longrightarrow> j < n \<Longrightarrow> I j t \<Longrightarrow> \<exists>t'. body j t = Some t' \<and> I (j + 1) t'"
  shows "\<exists>t. for_loop i n body s = Some t \<and> I (max i n) t"
  using init step
proof (induction "nat (n - i)" arbitrary: i s)
  case 0
  then have "\<not> i < n" by simp
  with 0 show ?case by (simp add: for_loop_done max_def)
next
  case (Suc k)
  then have lt: "i < n" by linarith
  from Suc.prems(2) [of i s] lt Suc.prems(1)
  obtain t' where t': "body i s = Some t'" "I (i + 1) t'" by auto
  have k: "k = nat (n - (i + 1))" using Suc.hyps(2) by linarith
  have "\<exists>t. for_loop (i + 1) n body t' = Some t \<and> I (max (i + 1) n) t"
  proof (rule Suc.hyps(1) [OF k t'(2)])
    fix j t assume "i + 1 \<le> j" "j < n" "I j t"
    then show "\<exists>t'. body j t = Some t' \<and> I (j + 1) t'"
      using Suc.prems(2) [of j t] by simp
  qed
  then show ?case using lt t'(1) by (simp add: for_loop_step max_def)
qed

lemma splice_length:
  "p + k \<le> length dst \<Longrightarrow> so + k \<le> length src \<Longrightarrow>
   length (take p dst @ take k (drop so src) @ drop (p + k) dst) = length dst"
  by simp

lemma splice_nth:
  assumes "p + k \<le> length dst" "so + k \<le> length src" "i < length dst"
  shows "(take p dst @ take k (drop so src) @ drop (p + k) dst) ! i
         = (if p \<le> i \<and> i < p + k then src ! (so + (i - p)) else dst ! i)"
proof -
  define A B C where "A = take p dst" and "B = take k (drop so src)" and "C = drop (p + k) dst"
  have la: "length A = p" and lk: "length B = k" using assms by (simp_all add: A_def B_def)
  consider "i < p" | "p \<le> i" "i < p + k" | "p + k \<le> i" by linarith
  then have "(A @ B @ C) ! i = (if p \<le> i \<and> i < p + k then src ! (so + (i - p)) else dst ! i)"
  proof cases
    case 1
    then have "(A @ B @ C) ! i = A ! i" by (simp add: nth_append la)
    also have "\<dots> = dst ! i" using 1 by (simp add: A_def)
    finally show ?thesis using 1 by simp
  next
    case 2
    then have ik: "i - p < k" by linarith
    have "(A @ B @ C) ! i = B ! (i - p)" using 2 ik by (simp add: nth_append la lk)
    also have "\<dots> = src ! (so + (i - p))" using ik assms by (simp add: B_def)
    finally show ?thesis using 2 by simp
  next
    case 3
    then have n1: "\<not> i < p" and n2: "\<not> i - p < k" and e: "p + k + (i - p - k) = i" by linarith+
    have "(A @ B @ C) ! i = C ! (i - p - k)" using n1 n2 by (simp add: nth_append la lk)
    also have "\<dots> = dst ! i" using assms e by (simp add: C_def)
    finally show ?thesis using 3 by simp
  qed
  then show ?thesis by (simp only: A_def B_def C_def)
qed

lemma memcpy_Some:
  assumes "0 \<le> n" "0 \<le> doff" "0 \<le> soff" "doff + n \<le> int (length dst)" "soff + n \<le> int (length src)"
  shows "\<exists>dst'. memcpy dst doff src soff n = Some dst' \<and> length dst' = length dst
     \<and> (\<forall>i. 0 \<le> i \<and> i < int (length dst) \<longrightarrow>
            dst' ! nat i = (if doff \<le> i \<and> i < doff + n then src ! nat (soff + (i - doff)) else dst ! nat i))"
proof -
  let ?r = "take (nat doff) dst @ take (nat n) (drop (nat soff) src) @ drop (nat doff + nat n) dst"
  have dn: "nat (doff + n) = nat doff + nat n" using assms by linarith
  have m: "memcpy dst doff src soff n = Some ?r" using assms by (simp add: memcpy_def dn)
  have bd1: "nat doff + nat n \<le> length dst" and bd2: "nat soff + nat n \<le> length src"
    using assms by linarith+
  have len: "length ?r = length dst" by (rule splice_length [OF bd1 bd2])
  have nth: "?r ! nat i = (if doff \<le> i \<and> i < doff + n then src ! nat (soff + (i - doff)) else dst ! nat i)"
    if "0 \<le> i" "i < int (length dst)" for i
  proof -
    have i: "nat i < length dst" using that by linarith
    have c: "(nat doff \<le> nat i \<and> nat i < nat doff + nat n) = (doff \<le> i \<and> i < doff + n)"
      using that assms by linarith
    have d: "doff \<le> i \<Longrightarrow> nat soff + (nat i - nat doff) = nat (soff + (i - doff))"
      using that assms by linarith
    show ?thesis
    proof (cases "doff \<le> i \<and> i < doff + n")
      case True
      then show ?thesis unfolding splice_nth [OF bd1 bd2 i] c using d by (simp only: if_True)
    next
      case False
      then show ?thesis unfolding splice_nth [OF bd1 bd2 i] c by (simp only: if_False)
    qed
  qed
  show ?thesis using m len nth by blast
qed


lemma copy_rows:
  fixes soff :: "int \<Rightarrow> int"
  assumes n0: "0 \<le> n" and ns: "n \<le> stride" and o0: "0 \<le> off0"
    and dstb: "\<And>y. y0 \<le> y \<Longrightarrow> y < y1 \<Longrightarrow> off0 + (y - y0) * stride + n \<le> int (length dst0)"
    and srcb: "\<And>y. y0 \<le> y \<Longrightarrow> y < y1 \<Longrightarrow> 0 \<le> soff y \<and> soff y + n \<le> int (length src)"
  shows "\<exists>dst' off'.
      for_loop y0 y1
        (\<lambda>y (buf, off). do {
           dst \<leftarrow> buf;
           dst' \<leftarrow> memcpy dst off src (soff y) n;
           Some (Some dst', off + stride) })
        (Some dst0, off0) = Some (Some dst', off')
     \<and> length dst' = length dst0
     \<and> (\<forall>y j. y0 \<le> y \<and> y < y1 \<and> 0 \<le> j \<and> j < n \<longrightarrow>
            dst' ! nat (off0 + (y - y0) * stride + j) = src ! nat (soff y + j))
     \<and> (\<forall>i. 0 \<le> i \<and> i < int (length dst0)
            \<and> (\<forall>y. y0 \<le> y \<and> y < y1 \<longrightarrow>
                   \<not> (off0 + (y - y0) * stride \<le> i \<and> i < off0 + (y - y0) * stride + n))
            \<longrightarrow> dst' ! nat i = dst0 ! nat i)"
proof -
  let ?body = "\<lambda>y (buf, off). do {
           dst \<leftarrow> buf;
           dst' \<leftarrow> memcpy dst off src (soff y) n;
           Some (Some dst', off + stride) }"
  define I where "I = (\<lambda>k (st :: byte list option \<times> int).
     \<exists>d. st = (Some d, off0 + (k - y0) * stride) \<and> length d = length dst0
       \<and> (\<forall>y j. y0 \<le> y \<and> y < k \<and> 0 \<le> j \<and> j < n \<longrightarrow>
              d ! nat (off0 + (y - y0) * stride + j) = src ! nat (soff y + j))
       \<and> (\<forall>i. 0 \<le> i \<and> i < int (length dst0)
              \<and> (\<forall>y. y0 \<le> y \<and> y < k \<longrightarrow>
                     \<not> (off0 + (y - y0) * stride \<le> i \<and> i < off0 + (y - y0) * stride + n))
              \<longrightarrow> d ! nat i = dst0 ! nat i))"
  have s0: "0 \<le> stride" using n0 ns by simp
  have init: "I y0 (Some dst0, off0)" unfolding I_def by auto
  have step: "\<exists>t'. ?body k t = Some t' \<and> I (k + 1) t'" if k: "y0 \<le> k" "k < y1" and inv: "I k t" for k t
  proof -
    from inv obtain d where t: "t = (Some d, off0 + (k - y0) * stride)" and ld: "length d = length dst0"
      and rows: "\<And>y j. y0 \<le> y \<Longrightarrow> y < k \<Longrightarrow> 0 \<le> j \<Longrightarrow> j < n \<Longrightarrow>
              d ! nat (off0 + (y - y0) * stride + j) = src ! nat (soff y + j)"
      and rest: "\<And>i. 0 \<le> i \<Longrightarrow> i < int (length dst0) \<Longrightarrow>
              (\<forall>y. y0 \<le> y \<and> y < k \<longrightarrow>
                     \<not> (off0 + (y - y0) * stride \<le> i \<and> i < off0 + (y - y0) * stride + n))
              \<Longrightarrow> d ! nat i = dst0 ! nat i"
      unfolding I_def by blast
    let ?off = "off0 + (k - y0) * stride"
    have kk: "0 \<le> (k - y0) * stride" using k s0 by simp
    have off_nn: "0 \<le> ?off" using o0 kk by linarith
    have fits: "?off + n \<le> int (length d)" using dstb [OF k] ld by simp
    from memcpy_Some [OF n0 off_nn _ fits, of "soff k" src] srcb [OF k]
    obtain d' where m: "memcpy d ?off src (soff k) n = Some d'" and ld': "length d' = length d"
      and nth: "\<And>i. 0 \<le> i \<Longrightarrow> i < int (length d) \<Longrightarrow>
            d' ! nat i = (if ?off \<le> i \<and> i < ?off + n then src ! nat (soff k + (i - ?off)) else d ! nat i)"
      by blast
    have below: "off0 + (y - y0) * stride + j < ?off" if "y0 \<le> y" "y < k" "j < n" for y j
    proof -
      have "(y - y0 + 1) * stride \<le> (k - y0) * stride"
        using that s0 by (intro mult_right_mono) auto
      then have "(y - y0) * stride + stride \<le> (k - y0) * stride" by (simp add: algebra_simps)
      then show ?thesis using that ns by linarith
    qed
    have rows': "d' ! nat (off0 + (y - y0) * stride + j) = src ! nat (soff y + j)"
      if "y0 \<le> y" "y < k + 1" "0 \<le> j" "j < n" for y j
    proof (cases "y = k")
      case True
      have "0 \<le> ?off + j" "?off + j < int (length d)" using off_nn that fits by linarith+
      from nth [OF this] that show ?thesis unfolding True by simp
    next
      case False
      then have yk: "y < k" using that by simp
      have yy: "0 \<le> (y - y0) * stride" using that s0 by simp
      have i0: "0 \<le> off0 + (y - y0) * stride + j" using o0 yy that by linarith
      have i1: "off0 + (y - y0) * stride + j < int (length d)"
        using dstb [of y] that yk k ld by simp
      have "\<not> (?off \<le> off0 + (y - y0) * stride + j)" using below [OF that(1) yk that(4)] by simp
      with nth [OF i0 i1] rows [OF that(1) yk that(3,4)] show ?thesis by simp
    qed
    have rest': "d' ! nat i = dst0 ! nat i"
      if "0 \<le> i" "i < int (length dst0)"
         "\<forall>y. y0 \<le> y \<and> y < k + 1 \<longrightarrow>
                     \<not> (off0 + (y - y0) * stride \<le> i \<and> i < off0 + (y - y0) * stride + n)" for i
    proof -
      have nin: "\<not> (?off \<le> i \<and> i < ?off + n)" using that(3) k by simp
      have "i < int (length d)" using that ld by simp
      from nth [OF that(1) this] have "d' ! nat i = d ! nat i" by (simp only: nin if_False)
      also have "\<dots> = dst0 ! nat i" using rest [OF that(1,2)] that(3) by simp
      finally show ?thesis .
    qed
    have "?body k t = Some (Some d', ?off + stride)" by (simp add: t m)
    moreover have "I (k + 1) (Some d', ?off + stride)"
      unfolding I_def using ld ld' rows' rest' by (simp add: algebra_simps)
    ultimately show ?thesis by blast
  qed
  from for_loop_rule [of I y0 "(Some dst0, off0)" y1 ?body, OF init step]
  obtain t where t: "for_loop y0 y1 ?body (Some dst0, off0) = Some t" and it: "I (max y0 y1) t" by blast
  from it obtain d where td: "t = (Some d, off0 + (max y0 y1 - y0) * stride)" and ld: "length d = length dst0"
      and rows: "\<And>y j. y0 \<le> y \<Longrightarrow> y < max y0 y1 \<Longrightarrow> 0 \<le> j \<Longrightarrow> j < n \<Longrightarrow>
              d ! nat (off0 + (y - y0) * stride + j) = src ! nat (soff y + j)"
      and rest: "\<And>i. 0 \<le> i \<Longrightarrow> i < int (length dst0) \<Longrightarrow>
              (\<forall>y. y0 \<le> y \<and> y < max y0 y1 \<longrightarrow>
                     \<not> (off0 + (y - y0) * stride \<le> i \<and> i < off0 + (y - y0) * stride + n))
              \<Longrightarrow> d ! nat i = dst0 ! nat i"
      unfolding I_def by blast
  have r1: "d ! nat (off0 + (y - y0) * stride + j) = src ! nat (soff y + j)"
    if "y0 \<le> y" "y < y1" "0 \<le> j" "j < n" for y j
    using rows [of y j] that by simp
  have r2: "d ! nat i = dst0 ! nat i"
    if "0 \<le> i" "i < int (length dst0)"
       "\<forall>y. y0 \<le> y \<and> y < y1 \<longrightarrow>
            \<not> (off0 + (y - y0) * stride \<le> i \<and> i < off0 + (y - y0) * stride + n)" for i
  proof -
    have "\<forall>y. y0 \<le> y \<and> y < max y0 y1 \<longrightarrow>
            \<not> (off0 + (y - y0) * stride \<le> i \<and> i < off0 + (y - y0) * stride + n)"
      using that(3) by (auto simp: max_def)
    then show ?thesis by (rule rest [OF that(1,2)])
  qed
  show ?thesis using t td ld r1 r2 by blast
qed

section \<open>Results\<close>

subsection \<open>ColorAlphaBlend\<close>

text \<open>
  Claim C1.  ColorAlphaBlend applies the tint to every source channel, returns dst for a
  tinted alpha of 0, the tinted source for 255, and otherwise the integer formula for the
  alpha and for each colour channel.  The value of the colour formula can exceed 255; the
  code casts it to \<open>unsigned char\<close>, which keeps its low eight bits.  White over white,
  both of alpha 1, under an opaque white tint: the formula gives 97665 >> 8 = 381 for each
  colour channel, the code returns 381 - 256 = 125.
\<close>

theorem ColorAlphaBlend_channel_wraps:
  "ColorAlphaBlend \<lparr>r = 255, g = 255, b = 255, a = 1\<rparr> \<lparr>r = 255, g = 255, b = 255, a = 1\<rparr> WHITE
     = \<lparr>r = 125, g = 125, b = 125, a = 2\<rparr>
   \<and> ((255 * 2 * 256 + 255 * 1 * (256 - 2)) div 2) div 256 = (381::nat)"
  by (simp add: ColorAlphaBlend_def WHITE_def u32_def u8_def Let_def)

subsection \<open>GetPixelDataSize\<close>

lemma GetPixelDataSize_alt:
  "GetPixelDataSize w h f = do {
     area \<leftarrow> int32 (w * h);
     bits \<leftarrow> int32 (area * format_bpp f);
     Some (if w < 4 \<and> h < 4
           then (if f \<ge> PIXELFORMAT_COMPRESSED_DXT1_RGB \<and> f < PIXELFORMAT_COMPRESSED_DXT3_RGBA then 8
                 else if f \<ge> PIXELFORMAT_COMPRESSED_DXT3_RGBA \<and> f < PIXELFORMAT_COMPRESSED_ASTC_8x8_RGBA then 16
                 else c_div bits 8)
           else c_div bits 8) }"
proof -
  have "(if f = PIXELFORMAT_UNCOMPRESSED_GRAYSCALE then 8
        else if f = PIXELFORMAT_UNCOMPRESSED_GRAY_ALPHA
              \<or> f = PIXELFORMAT_UNCOMPRESSED_R5G6B5
              \<or> f = PIXELFORMAT_UNCOMPRESSED_R5G5B5A1
              \<or> f = PIXELFORMAT_UNCOMPRESSED_R4G4B4A4 then 16
        else if f = PIXELFORMAT_UNCOMPRESSED_R8G8B8A8 then 32
        else if f = PIXELFORMAT_UNCOMPRESSED_R8G8B8 then 24
        else if f = PIXELFORMAT_UNCOMPRESSED_R32 then 32
        else if f = PIXELFORMAT_UNCOMPRESSED_R32G32B32 then 32 * 3
        else if f = PIXELFORMAT_UNCOMPRESSED_R32G32B32A32 then 32 * 4
        else if f = PIXELFORMAT_COMPRESSED_DXT1_RGB
              \<or> f = PIXELFORMAT_COMPRESSED_DXT1_RGBA
              \<or> f = PIXELFORMAT_COMPRESSED_ETC1_RGB
              \<or> f = PIXELFORMAT_COMPRESSED_ETC2_RGB
              \<or> f = PIXELFORMAT_COMPRESSED_PVRT_RGB
              \<or> f = PIXELFORMAT_COMPRESSED_PVRT_RGBA then 4
        else if f = PIXELFORMAT_COMPRESSED_DXT3_RGBA
              \<or> f = PIXELFORMAT_COMPRESSED_DXT5_RGBA
              \<or> f = PIXELFORMAT_COMPRESSED_ETC2_EAC_RGBA
              \<or> f = PIXELFORMAT_COMPRESSED_ASTC_4x4_RGBA then 8
        else if f = PIXELFORMAT_COMPRESSED_ASTC_8x8_RGBA then 2
        else (0::int)) = format_bpp f"
    unfolding format_bpp_def PIXELFORMAT_defs by simp
  then show ?thesis
    unfolding GetPixelDataSize_def Let_def by simp
qed

lemma format_range_DXT1:
  "(PIXELFORMAT_COMPRESSED_DXT1_RGB \<le> f \<and> f < PIXELFORMAT_COMPRESSED_DXT3_RGBA)
     = (f \<in> {PIXELFORMAT_COMPRESSED_DXT1_RGB, PIXELFORMAT_COMPRESSED_DXT1_RGBA})"
  unfolding PIXELFORMAT_defs by auto

lemma format_range_DXT3:
  "(PIXELFORMAT_COMPRESSED_DXT3_RGBA \<le> f \<and> f < PIXELFORMAT_COMPRESSED_ASTC_8x8_RGBA)
     = (f \<in> {PIXELFORMAT_COMPRESSED_DXT3_RGBA, PIXELFORMAT_COMPRESSED_DXT5_RGBA,
                     PIXELFORMAT_COMPRESSED_ETC1_RGB, PIXELFORMAT_COMPRESSED_ETC2_RGB,
                     PIXELFORMAT_COMPRESSED_ETC2_EAC_RGBA, PIXELFORMAT_COMPRESSED_PVRT_RGB,
                     PIXELFORMAT_COMPRESSED_PVRT_RGBA, PIXELFORMAT_COMPRESSED_ASTC_4x4_RGBA})"
  unfolding PIXELFORMAT_defs by auto

text \<open>
  Claim C5, as the code has it.  Whenever \<open>w*h\<close> and \<open>w*h*bpp\<close> fit a
  32-bit int, GetPixelDataSize returns \<open>w*h*bpp/8\<close> (C's division) for the bits
  per pixel of the format, except when \<open>w < 4\<close> and \<open>h < 4\<close>: then DXT1_RGB and
  DXT1_RGBA give 8, and the eight formats from DXT3_RGBA up to ASTC_4x4_RGBA in the order
  of the enumeration give 16, among them ETC1_RGB, ETC2_RGB, PVRT_RGB and PVRT_RGBA of 4
  bits per pixel; ASTC_8x8_RGBA is never clamped.  GetPixelDataSize(2, 2, DXT1_RGBA) is 8.
\<close>

theorem GetPixelDataSize_value:
  "int32 (w * h) \<noteq> None \<Longrightarrow> int32 (w * h * format_bpp f) \<noteq> None \<Longrightarrow>
   GetPixelDataSize w h f =
     Some (if w < 4 \<and> h < 4
              \<and> f \<in> {PIXELFORMAT_COMPRESSED_DXT1_RGB, PIXELFORMAT_COMPRESSED_DXT1_RGBA} then 8
           else if w < 4 \<and> h < 4
              \<and> f \<in> {PIXELFORMAT_COMPRESSED_DXT3_RGBA, PIXELFORMAT_COMPRESSED_DXT5_RGBA,
                     PIXELFORMAT_COMPRESSED_ETC1_RGB, PIXELFORMAT_COMPRESSED_ETC2_RGB,
                     PIXELFORMAT_COMPRESSED_ETC2_EAC_RGBA, PIXELFORMAT_COMPRESSED_PVRT_RGB,
                     PIXELFORMAT_COMPRESSED_PVRT_RGBA, PIXELFORMAT_COMPRESSED_ASTC_4x4_RGBA} then 16
           else c_div (w * h * format_bpp f) 8)
   \<and> GetPixelDataSize 2 2 PIXELFORMAT_COMPRESSED_DXT1_RGBA = Some 8"
proof -
  assume fits: "int32 (w * h) \<noteq> None" "int32 (w * h * format_bpp f) \<noteq> None"
  have a: "int32 (w * h) = Some (w * h)"
    using fits(1) by (simp add: int32_def split: if_splits)
  have b: "int32 (w * h * format_bpp f) = Some (w * h * format_bpp f)"
    using fits(2) by (simp add: int32_def split: if_splits)
  have "GetPixelDataSize 2 2 PIXELFORMAT_COMPRESSED_DXT1_RGBA = Some 8"
    by (simp add: GetPixelDataSize_alt format_bpp_def PIXELFORMAT_defs int32_def)
  then show ?thesis
    unfolding GetPixelDataSize_alt format_range_DXT1 format_range_DXT3
    by (simp add: a b)
qed

theorem GetPixelDataSize_value_witness:
  "GetPixelDataSize 3 2 PIXELFORMAT_COMPRESSED_PVRT_RGB = Some 16
   \<and> GetPixelDataSize 100 100 PIXELFORMAT_UNCOMPRESSED_R8G8B8A8 = Some 40000"
  using GetPixelDataSize_value [of 3 2 PIXELFORMAT_COMPRESSED_PVRT_RGB]
    GetPixelDataSize_value [of 100 100 PIXELFORMAT_UNCOMPRESSED_R8G8B8A8]
  by (simp add: format_bpp_def PIXELFORMAT_defs int32_def c_div_def)

text \<open>
  ETC1_RGB has 4 bits per pixel, and a 2x2 image of it is sized 16 bytes, not 8.
\<close>

theorem GetPixelDataSize_ETC1_counterexample:
  "format_bpp PIXELFORMAT_COMPRESSED_ETC1_RGB = 4
   \<and> GetPixelDataSize 2 2 PIXELFORMAT_COMPRESSED_ETC1_RGB = Some 16"
  by (simp add: GetPixelDataSize_alt format_bpp_def PIXELFORMAT_defs int32_def)

subsection \<open>ImageCrop\<close>

lemma bpp_R8G8B8A8: "GetPixelDataSize 1 1 PIXELFORMAT_UNCOMPRESSED_R8G8B8A8 = Some 4"
  by (simp add: GetPixelDataSize_alt format_bpp_def PIXELFORMAT_defs int32_def c_div_def)

lemma uncompressed_R8G8B8A8:
  "\<not> PIXELFORMAT_COMPRESSED_DXT1_RGB \<le> PIXELFORMAT_UNCOMPRESSED_R8G8B8A8"
  by (simp add: PIXELFORMAT_defs)

text \<open>
  Claim C7.  Cropping a 100x100 R8G8B8A8 image (any buffer that holds its 40000 bytes) with
  the rectangle (90, 90, 30, 30) gives a 10x10 image of 400 bytes, and the byte \<open>k\<close> of its
  pixel \<open>(x, y)\<close> is the byte \<open>k\<close> of the source pixel \<open>(90 + x, 90 + y)\<close>.
\<close>

theorem ImageCrop_far_edge:
  assumes d: "data img = Some d" and w: "width img = 100" and h: "height img = 100"
    and f: "format img = PIXELFORMAT_UNCOMPRESSED_R8G8B8A8" and len: "40000 \<le> length d"
  shows "\<exists>d'. ImageCrop uninit img \<lparr>rec_x = 90, rec_y = 90, rec_width = 30, rec_height = 30\<rparr>
              = Some (img\<lparr>data := Some d', width := 10, height := 10\<rparr>)
          \<and> length d' = 400
          \<and> (\<forall>x y k. x < 10 \<and> y < 10 \<and> k < 4 \<longrightarrow>
                d' ! ((y * 10 + x) * 4 + k) = d ! (((90 + y) * 100 + (90 + x)) * 4 + k))"
proof -
  let ?body = "\<lambda>y (buf, off). do {
           dst \<leftarrow> buf;
           dst' \<leftarrow> memcpy dst off d ((y * 100 + 90) * 4) 40;
           Some (Some dst', off + 40) }"
  from copy_rows [of 40 40 0 90 100 "map uninit [0..<400]" "\<lambda>y. (y * 100 + 90) * 4" d] len
  obtain d' off' where
    loop: "for_loop 90 100 ?body (Some (map uninit [0..<400]), 0) = Some (Some d', off')"
    and ld: "length d' = 400"
    and rows: "\<And>y j. 90 \<le> y \<Longrightarrow> y < 100 \<Longrightarrow> 0 \<le> j \<Longrightarrow> j < 40 \<Longrightarrow>
            d' ! nat (0 + (y - 90) * 40 + j) = d ! nat ((y * 100 + 90) * 4 + j)"
    by auto
  have crop: "ImageCrop uninit img \<lparr>rec_x = 90, rec_y = 90, rec_width = 30, rec_height = 30\<rparr>
              = Some (img\<lparr>data := Some d', width := 10, height := 10\<rparr>)"
    unfolding ImageCrop_def using loop
    by (simp add: d w h f bpp_R8G8B8A8 RL_MALLOC_def uncompressed_R8G8B8A8)
  have px: "d' ! ((y * 10 + x) * 4 + k) = d ! (((90 + y) * 100 + (90 + x)) * 4 + k)"
    if "x < 10" "y < 10" "k < 4" for x y k :: nat
  proof -
    have e1: "nat (0 + (90 + int y - 90) * 40 + int (x * 4 + k)) = (y * 10 + x) * 4 + k"
      by (simp add: nat_add_distrib nat_mult_distrib algebra_simps)
    have e2: "nat (((90 + int y) * 100 + 90) * 4 + int (x * 4 + k)) = ((90 + y) * 100 + (90 + x)) * 4 + k"
      by (simp add: nat_add_distrib nat_mult_distrib algebra_simps)
    from rows [of "90 + int y" "int (x * 4 + k)"] that show ?thesis
      unfolding e1 e2 by simp
  qed
  show ?thesis using crop ld px by blast
qed


theorem ImageCrop_far_edge_witness:
  "\<exists>d'. ImageCrop (\<lambda>i. 0)
           \<lparr>data = Some (map of_nat [0..<40000]), width = 100, height = 100, mipmaps = 1,
            format = PIXELFORMAT_UNCOMPRESSED_R8G8B8A8\<rparr>
           \<lparr>rec_x = 90, rec_y = 90, rec_width = 30, rec_height = 30\<rparr>
         = Some \<lparr>data = Some d', width = 10, height = 10, mipmaps = 1,
                  format = PIXELFORMAT_UNCOMPRESSED_R8G8B8A8\<rparr>
       \<and> length d' = 400 \<and> d' ! 0 = 8 \<and> d' ! 399 = 63"
proof -
  from ImageCrop_far_edge [of "\<lparr>data = Some (map of_nat [0..<40000]), width = 100, height = 100,
       mipmaps = 1, format = PIXELFORMAT_UNCOMPRESSED_R8G8B8A8\<rparr>" "map of_nat [0..<40000]" "\<lambda>i. 0"]
  obtain d' where c: "ImageCrop (\<lambda>i. 0)
           \<lparr>data = Some (map of_nat [0..<40000]), width = 100, height = 100, mipmaps = 1,
            format = PIXELFORMAT_UNCOMPRESSED_R8G8B8A8\<rparr>
           \<lparr>rec_x = 90, rec_y = 90, rec_width = 30, rec_height = 30\<rparr>
         = Some \<lparr>data = Some d', width = 10, height = 10, mipmaps = 1,
                  format = PIXELFORMAT_UNCOMPRESSED_R8G8B8A8\<rparr>"
    and l: "length d' = 400"
    and px: "\<And>x y k. x < 10 \<Longrightarrow> y < 10 \<Longrightarrow> k < 4 \<Longrightarrow>
           d' ! ((y * 10 + x) * 4 + k) = map of_nat [0..<40000] ! (((90 + y) * 100 + (90 + x)) * 4 + k)"
    by auto
  have "d' ! 0 = 8" using px [of 0 0 0] by simp
  moreover have "d' ! 399 = 63" using px [of 9 9 3] by simp
  ultimately show ?thesis using c l by blast
qed

text \<open>
  Claim C8.  ImageCrop keeps \<open>width > 0\<close> and \<open>height > 0\<close> on an image with a buffer.
  The rectangle (-5, -5, 2, 2) lies outside the image on the near side: the clamps make it
  (0, 0, -3, -3), the test for a rectangle out of bounds looks at the far side only, and the
  image gets a buffer of \<open>(-3)*(-3)*4 = 36\<close> indeterminate bytes with width and height -3.
\<close>

theorem ImageCrop_outside_rectangle:
  "ImageCrop uninit
     \<lparr>data = Some (replicate 16 0), width = 2, height = 2, mipmaps = 1,
      format = PIXELFORMAT_UNCOMPRESSED_R8G8B8A8\<rparr>
     \<lparr>rec_x = - 5, rec_y = - 5, rec_width = 2, rec_height = 2\<rparr>
   = Some \<lparr>data = Some (map uninit [0..<36]), width = - 3, height = - 3, mipmaps = 1,
            format = PIXELFORMAT_UNCOMPRESSED_R8G8B8A8\<rparr>"
  unfolding ImageCrop_def
  by (simp add: bpp_R8G8B8A8 RL_MALLOC_def uncompressed_R8G8B8A8 for_loop_done)

subsection \<open>ImageResizeCanvas\<close>








lemma row_fits:
  fixes y hh ww x n B :: int
  assumes "0 \<le> y" "y < hh" "0 \<le> x" "0 \<le> n" "x + n \<le> ww" "0 \<le> B"
  shows "(y * ww + x) * B + n * B \<le> ww * hh * B"
proof -
  have "(y + 1) * ww \<le> hh * ww" using assms by (intro mult_right_mono) auto
  then have "y * ww + x + n \<le> ww * hh" using assms by (simp add: algebra_simps)
  then have "(y * ww + x + n) * B \<le> (ww * hh) * B" using assms by (intro mult_right_mono) auto
  then show ?thesis by (simp add: algebra_simps)
qed









text \<open>
  Outside these bounds the function is not defined, or not exact: a canvas whose size is no
  int, an offset beyond the canvas width (a memcpy of negative length), and a width that
  no float holds.
\<close>

lemma ImageResizeCanvas_size_overflow:
  "ImageResizeCanvas
      \<lparr>data = Some [7], width = 1, height = 1, mipmaps = 1,
       format = PIXELFORMAT_UNCOMPRESSED_GRAYSCALE\<rparr> 65536 65536 0 0 WHITE = None"
  by code_simp

lemma ImageResizeCanvas_offset_beyond_canvas:
  "ImageResizeCanvas
      \<lparr>data = Some [1, 2, 3, 4, 5, 6], width = 3, height = 2, mipmaps = 1,
       format = PIXELFORMAT_UNCOMPRESSED_GRAYSCALE\<rparr> 2 2 3 0 WHITE = None"
  by code_simp

lemma float_int_rounds: "float_int 16777217 = 16777216"
  by code_simp


subsection \<open>The pixel codec\<close>

lemma quantize_scale_31_all:
  "\<forall>n\<in>set [0..<32]. quantize (scale_channel (of_nat n) 31) 31 = Some (of_nat n)"
  by code_simp

lemma quantize_scale_63_all:
  "\<forall>n\<in>set [0..<64]. quantize (scale_channel (of_nat n) 63) 63 = Some (of_nat n)"
  by code_simp

lemma quantize_scale_31:
  fixes v :: "16 word"
  assumes "v < 32"
  shows "quantize (scale_channel v 31) 31 = Some (ucast v)"
proof -
  have "unat v \<in> set [0..<32]" using assms by (simp add: word_less_nat_alt)
  with quantize_scale_31_all
  have "quantize (scale_channel (of_nat (unat v)) 31) 31 = Some (of_nat (unat v))" by blast
  moreover have "(of_nat (unat v) :: 16 word) = v" by simp
  moreover have "(of_nat (unat v) :: byte) = ucast v" by (simp add: unsigned_of_nat)
  ultimately show ?thesis by simp
qed

lemma quantize_scale_63:
  fixes v :: "16 word"
  assumes "v < 64"
  shows "quantize (scale_channel v 63) 63 = Some (ucast v)"
proof -
  have "unat v \<in> set [0..<64]" using assms by (simp add: word_less_nat_alt)
  with quantize_scale_63_all
  have "quantize (scale_channel (of_nat (unat v)) 63) 63 = Some (of_nat (unat v))" by blast
  moreover have "(of_nat (unat v) :: 16 word) = v" by simp
  moreover have "(of_nat (unat v) :: byte) = ucast v" by (simp add: unsigned_of_nat)
  ultimately show ?thesis by simp
qed

lemma R5G6B5_fields:
  fixes p :: "16 word"
  shows "push_bit 11 (ucast (ucast (drop_bit 11 p) :: byte))
           OR push_bit 5 (ucast (ucast (drop_bit 5 p AND 63) :: byte))
           OR ucast (ucast (p AND 31) :: byte) = p"
proof -
  have m63: "(63::16 word) = mask 6" and m31: "(31::16 word) = mask 5"
    by (simp_all add: mask_eq_exp_minus_1)
  show ?thesis
    unfolding m63 m31
  proof (rule bit_word_eqI)
    fix n assume "n < LENGTH(16)"
    then consider "n < 5" | "5 \<le> n" "n < 11" | "11 \<le> n" "n < 16" by force
    then show "bit (push_bit 11 (ucast (ucast (drop_bit 11 p) :: byte))
           OR push_bit 5 (ucast (ucast (drop_bit 5 p AND mask 6) :: byte))
           OR ucast (ucast (p AND mask 5) :: byte) :: 16 word) n = bit p n"
      by cases (auto simp: bit_simps)
  qed
qed

lemma R5G6B5_field_bounds:
  fixes p :: "16 word"
  shows "drop_bit 11 p < 32" "drop_bit 5 p AND 63 < 64" "p AND 31 < 32"
proof -
  have m63: "(63::16 word) = mask 6" and m31: "(31::16 word) = mask 5"
    by (simp_all add: mask_eq_exp_minus_1)
  have "unat (drop_bit 11 p) = drop_bit 11 (unat p)" by (rule unat_drop_bit_eq)
  then have "unat (drop_bit 11 p) = unat p div 2 ^ 11" by (simp only: drop_bit_eq_div)
  moreover have "unat p < 2 ^ 16" using unsigned_less [of p] by simp
  ultimately have "unat (drop_bit 11 p) < 32" by simp
  then show "drop_bit 11 p < 32" by (simp add: word_less_nat_alt)
  show "drop_bit 5 p AND 63 < 64" unfolding m63 using and_mask_less' [of 6 "drop_bit 5 p"] by simp
  show "p AND 31 < 32" unfolding m31 using and_mask_less' [of 5 p] by simp
qed

lemma store_load_u16:
  assumes "store_u16 m i p = Some m'"
  shows "load_u16 m' i = Some p" and "length m' = length m"
proof -
  from assms have i: "0 \<le> i" "i + 1 < int (length m)"
    and m': "m' = m[nat i := ucast p, nat (i + 1) := ucast (drop_bit 8 p)]"
    by (auto simp: store_u16_def store_u8_def split: if_splits bind_splits)
  have ne: "nat i \<noteq> nat (i + 1)" using i by linarith
  have "(ucast (ucast p :: byte) :: 16 word) OR push_bit 8 (ucast (ucast (drop_bit 8 p) :: byte)) = p"
  proof (rule bit_word_eqI)
    fix n assume "n < LENGTH(16)"
    then consider "n < 8" | "8 \<le> n" "n < 16" by force
    then show "bit ((ucast (ucast p :: byte) :: 16 word)
        OR push_bit 8 (ucast (ucast (drop_bit 8 p) :: byte))) n = bit p n"
      by cases (auto simp: bit_simps)
  qed
  then show "load_u16 m' i = Some p"
    using i ne by (simp add: load_u16_def load_u8_def m')
  show "length m' = length m" by (simp add: m')
qed

lemma load_store_u16:
  assumes "load_u16 m i = Some p"
  shows "store_u16 m i p = Some m"
proof -
  from assms have i: "0 \<le> i" "i + 1 < int (length m)"
    and p: "p = ucast (m ! nat i) OR push_bit 8 (ucast (m ! nat (i + 1)))"
    by (auto simp: load_u16_def load_u8_def split: if_splits bind_splits)
  have lo: "(ucast p :: byte) = m ! nat i"
    unfolding p by (rule bit_word_eqI) (auto simp: bit_simps)
  have hi: "(ucast (drop_bit 8 p) :: byte) = m ! nat (i + 1)"
    unfolding p by (rule bit_word_eqI) (auto simp: bit_simps dest: bit_imp_le_length)
  show ?thesis
    using i by (simp add: store_u16_def store_u8_def lo hi)
qed

lemma store_u16_Some:
  assumes "0 \<le> i" "i + 1 < int (length m)"
  shows "\<exists>m'. store_u16 m i p = Some m'"
  using assms by (simp add: store_u16_def store_u8_def)

lemma pack_decoded_R5G6B5:
  "pack_R5G6B5 \<lparr>r = scale_channel (drop_bit 11 p) 31, g = scale_channel (drop_bit 5 p AND 63) 63,
                 b = scale_channel (p AND 31) 31, a = al\<rparr> = Some p"
  by (simp add: pack_R5G6B5_def quantize_scale_31 quantize_scale_63 R5G6B5_field_bounds R5G6B5_fields)

lemma GetPixelColor_R5G6B5:
  "GetPixelColor m i PIXELFORMAT_UNCOMPRESSED_R5G6B5 =
     load_u16 m i \<bind> (\<lambda>p. Some \<lparr>r = scale_channel (drop_bit 11 p) 31,
             g = scale_channel (drop_bit 5 p AND 63) 63,
             b = scale_channel (p AND 31) 31, a = 255\<rparr>)"
  by (simp add: GetPixelColor_def PIXELFORMAT_defs)

lemma SetPixelColor_R5G6B5:
  "SetPixelColor m i c PIXELFORMAT_UNCOMPRESSED_R5G6B5 = pack_R5G6B5 c \<bind> store_u16 m i"
  by (simp add: SetPixelColor_def PIXELFORMAT_defs)

lemma pack_248_252_248: "pack_R5G6B5 \<lparr>r = 248, g = 252, b = 248, a = 255\<rparr> = Some 0xF7DE"
  by code_simp

text \<open>
  Claim C3, as the code has it.  SetPixelColor scales a channel by 31/255 or 63/255 and
  rounds; GetPixelColor scales back by 255/31 or 255/63 and truncates.  So the colour
  (248, 252, 248, 255) is stored as the pixel 0xF7DE, fields (30, 62, 30), and read back as
  (246, 250, 246, 255), whatever buffer it is written to.  The round trip returns exactly
  the colour it started from for every colour that GetPixelColor reads from an R5G6B5
  pixel.
\<close>

theorem R5G6B5_round_trip:
  "(0 \<le> i \<and> i + 1 < int (length m) \<longrightarrow>
      (SetPixelColor m i \<lparr>r = 248, g = 252, b = 248, a = 255\<rparr> PIXELFORMAT_UNCOMPRESSED_R5G6B5
         \<bind> (\<lambda>m'. GetPixelColor m' i PIXELFORMAT_UNCOMPRESSED_R5G6B5))
       = Some \<lparr>r = 246, g = 250, b = 246, a = 255\<rparr>)
   \<and> (GetPixelColor m0 j PIXELFORMAT_UNCOMPRESSED_R5G6B5 = Some c
        \<and> 0 \<le> i \<and> i + 1 < int (length m) \<longrightarrow>
      (SetPixelColor m i c PIXELFORMAT_UNCOMPRESSED_R5G6B5
         \<bind> (\<lambda>m'. GetPixelColor m' i PIXELFORMAT_UNCOMPRESSED_R5G6B5)) = Some c)"
proof (intro conjI impI)
  assume "0 \<le> i \<and> i + 1 < int (length m)"
  then obtain m' where st: "store_u16 m i 0xF7DE = Some m'" using store_u16_Some by blast
  have "scale_channel (drop_bit 11 (0xF7DE :: 16 word)) 31 = 246"
    "scale_channel (drop_bit 5 (0xF7DE :: 16 word) AND 63) 63 = 250"
    "scale_channel ((0xF7DE :: 16 word) AND 31) 31 = 246"
    by (simp_all add: scale_channel_def)
  then show "(SetPixelColor m i \<lparr>r = 248, g = 252, b = 248, a = 255\<rparr> PIXELFORMAT_UNCOMPRESSED_R5G6B5
         \<bind> (\<lambda>m'. GetPixelColor m' i PIXELFORMAT_UNCOMPRESSED_R5G6B5))
       = Some \<lparr>r = 246, g = 250, b = 246, a = 255\<rparr>"
    using st store_load_u16(1) [OF st]
    by (simp add: SetPixelColor_R5G6B5 GetPixelColor_R5G6B5 pack_248_252_248)
next
  assume asm: "GetPixelColor m0 j PIXELFORMAT_UNCOMPRESSED_R5G6B5 = Some c
        \<and> 0 \<le> i \<and> i + 1 < int (length m)"
  then obtain p where c: "c = \<lparr>r = scale_channel (drop_bit 11 p) 31,
             g = scale_channel (drop_bit 5 p AND 63) 63,
             b = scale_channel (p AND 31) 31, a = 255\<rparr>"
    by (auto simp: GetPixelColor_R5G6B5 split: bind_splits)
  from asm obtain m' where st: "store_u16 m i p = Some m'" using store_u16_Some by blast
  show "(SetPixelColor m i c PIXELFORMAT_UNCOMPRESSED_R5G6B5
         \<bind> (\<lambda>m'. GetPixelColor m' i PIXELFORMAT_UNCOMPRESSED_R5G6B5)) = Some c"
    using st store_load_u16(1) [OF st]
    by (simp add: SetPixelColor_R5G6B5 GetPixelColor_R5G6B5 c pack_decoded_R5G6B5)
qed

theorem R5G6B5_round_trip_witness:
  "(SetPixelColor [0, 0] 0 \<lparr>r = 248, g = 252, b = 248, a = 255\<rparr> PIXELFORMAT_UNCOMPRESSED_R5G6B5
         \<bind> (\<lambda>m'. GetPixelColor m' 0 PIXELFORMAT_UNCOMPRESSED_R5G6B5))
       = Some \<lparr>r = 246, g = 250, b = 246, a = 255\<rparr>
   \<and> (SetPixelColor [0, 0] 0 \<lparr>r = 246, g = 250, b = 246, a = 255\<rparr> PIXELFORMAT_UNCOMPRESSED_R5G6B5
         \<bind> (\<lambda>m'. GetPixelColor m' 0 PIXELFORMAT_UNCOMPRESSED_R5G6B5))
       = Some \<lparr>r = 246, g = 250, b = 246, a = 255\<rparr>"
proof -
  have g: "GetPixelColor [222, 247] 0 PIXELFORMAT_UNCOMPRESSED_R5G6B5
      = Some \<lparr>r = 246, g = 250, b = 246, a = 255\<rparr>"
    by (simp add: GetPixelColor_R5G6B5 load_u16_def load_u8_def scale_channel_def)
  show ?thesis
    using R5G6B5_round_trip [of 0 "[0, 0]" "[222, 247]" 0 "\<lparr>r = 246, g = 250, b = 246, a = 255\<rparr>"] g
    by simp
qed

text \<open>The round trip of (248, 252, 248, 255) does not return that colour.\<close>

theorem R5G6B5_round_trip_counterexample:
  "(SetPixelColor [0, 0] 0 \<lparr>r = 248, g = 252, b = 248, a = 255\<rparr> PIXELFORMAT_UNCOMPRESSED_R5G6B5
         \<bind> (\<lambda>m'. GetPixelColor m' 0 PIXELFORMAT_UNCOMPRESSED_R5G6B5))
       \<noteq> Some \<lparr>r = 248, g = 252, b = 248, a = 255\<rparr>"
  by code_simp


subsection \<open>ImageFormat\<close>

text \<open>
  Claim C6.  ImageFormat returns the image as it was (buffer, width, height, format and
  mipmap count) when the new format is 0, when it is the format of the image, and when the
  format of the image or the new format is a compressed one.
\<close>

theorem ImageFormat_unchanged:
  "newFormat = 0 \<or> newFormat = format img \<or> is_compressed (format img) \<or> is_compressed newFormat
   \<Longrightarrow> ImageFormat uninit img newFormat = Some img"
  by (auto simp: ImageFormat_def is_compressed_def)

theorem ImageFormat_unchanged_witness:
  "ImageFormat (\<lambda>i. 0)
     \<lparr>data = Some [255, 0, 0, 255], width = 1, height = 1, mipmaps = 1,
      format = PIXELFORMAT_UNCOMPRESSED_R8G8B8A8\<rparr> PIXELFORMAT_COMPRESSED_DXT5_RGBA
   = Some \<lparr>data = Some [255, 0, 0, 255], width = 1, height = 1, mipmaps = 1,
            format = PIXELFORMAT_UNCOMPRESSED_R8G8B8A8\<rparr>"
  using ImageFormat_unchanged [of PIXELFORMAT_COMPRESSED_DXT5_RGBA
      "\<lparr>data = Some [255, 0, 0, 255], width = 1, height = 1, mipmaps = 1,
        format = PIXELFORMAT_UNCOMPRESSED_R8G8B8A8\<rparr>" "\<lambda>i. 0"]
  by (simp add: is_compressed_def PIXELFORMAT_defs)

text \<open>A conversion that the guards let through does change the image.\<close>

lemma ImageFormat_converts:
  "ImageFormat uninit
     \<lparr>data = Some [255, 0, 0, 255], width = 1, height = 1, mipmaps = 1,
      format = PIXELFORMAT_UNCOMPRESSED_R8G8B8A8\<rparr> PIXELFORMAT_UNCOMPRESSED_R5G6B5
   = Some \<lparr>data = Some [0, 248], width = 1, height = 1, mipmaps = 1,
            format = PIXELFORMAT_UNCOMPRESSED_R5G6B5\<rparr>"
  by code_simp

subsection \<open>ImageDrawPixel and ImageDrawRectangleRec\<close>

text \<open>
  The guard of ImageDrawPixel: for every colour and format, it returns the image as it was
  when the buffer is null or the coordinate lies outside the image.
\<close>

lemma ImageDrawPixel_outside:
  "data dst = None \<or> x < 0 \<or> width dst \<le> x \<or> y < 0 \<or> height dst \<le> y
   \<Longrightarrow> ImageDrawPixel dst x y color = Some dst"
  by (auto simp: ImageDrawPixel_def)

lemma ImageDrawPixel_outside_example:
  "ImageDrawPixel
     \<lparr>data = Some [1, 2, 3, 4], width = 2, height = 2, mipmaps = 1,
      format = PIXELFORMAT_UNCOMPRESSED_GRAYSCALE\<rparr> 2 0 WHITE
   = Some \<lparr>data = Some [1, 2, 3, 4], width = 2, height = 2, mipmaps = 1,
            format = PIXELFORMAT_UNCOMPRESSED_GRAYSCALE\<rparr>"
  using ImageDrawPixel_outside [of "\<lparr>data = Some [1, 2, 3, 4], width = 2, height = 2, mipmaps = 1,
      format = PIXELFORMAT_UNCOMPRESSED_GRAYSCALE\<rparr>" 2 0 WHITE]
  by simp

text \<open>
  Within the buffer the same copy runs into the next row: the rectangle (2, 0, 3, 1) on a
  3x3 image paints the pixel (2, 0) and the pixels (0, 1) and (1, 1).
\<close>

lemma ImageDrawRectangleRec_wraps_row:
  "ImageDrawRectangleRec
     \<lparr>data = Some (replicate 9 0), width = 3, height = 3, mipmaps = 1,
      format = PIXELFORMAT_UNCOMPRESSED_GRAYSCALE\<rparr>
     \<lparr>rec_x = 2, rec_y = 0, rec_width = 3, rec_height = 1\<rparr> WHITE
   = Some \<lparr>data = Some [0, 0, 255, 255, 255, 0, 0, 0, 0], width = 3, height = 3, mipmaps = 1,
            format = PIXELFORMAT_UNCOMPRESSED_GRAYSCALE\<rparr>"
  by code_simp

text \<open>
  Claim C10 says that every primitive built on ImageDrawPixel clips in silence and never
  writes out of bounds.  The rectangle primitive writes the first pixel of a row through
  ImageDrawPixel and replicates it with memcpy over the width of the rectangle, which is
  not clamped to the image: the rectangle (0, 9, 20, 1) on a 10x10 image of one byte per
  pixel copies to the bytes 100 to 109, past the end of the buffer of 100 bytes.
\<close>

theorem ImageDrawRectangleRec_writes_past_the_end:
  "ImageDrawRectangleRec
     \<lparr>data = Some (replicate 100 0), width = 10, height = 10, mipmaps = 1,
      format = PIXELFORMAT_UNCOMPRESSED_GRAYSCALE\<rparr>
     \<lparr>rec_x = 0, rec_y = 9, rec_width = 20, rec_height = 1\<rparr> WHITE = None"
  by code_simp

text \<open>
  Claim C4.  On a 10x10 image the rectangle (-2, 0, 5, 5) should be clamped to
  (0, 0, 3, 5) and paint 15 pixels.  The code subtracts the negative \<open>x\<close> from the width
  where ImageCrop and ImageDraw add it: the rectangle becomes (0, 0, 7, 5), and 35 pixels
  are painted, seven in each of the first five rows.
\<close>

theorem ImageDrawRectangleRec_negative_x:
  "ImageDrawRectangleRec
     \<lparr>data = Some (replicate 400 0), width = 10, height = 10, mipmaps = 1,
      format = PIXELFORMAT_UNCOMPRESSED_R8G8B8A8\<rparr>
     \<lparr>rec_x = - 2, rec_y = 0, rec_width = 5, rec_height = 5\<rparr>
     \<lparr>r = 230, g = 41, b = 55, a = 255\<rparr>
   = Some \<lparr>data = Some (concat (replicate 5 (concat (replicate 7 [230, 41, 55, 255]) @ replicate 12 0))
                          @ replicate 200 0),
            width = 10, height = 10, mipmaps = 1, format = PIXELFORMAT_UNCOMPRESSED_R8G8B8A8\<rparr>
   \<and> changed_pixels (replicate 400 0)
        (concat (replicate 5 (concat (replicate 7 [230, 41, 55, 255]) @ replicate 12 0)) @ replicate 200 0) 4
       = 35"
  by code_simp


subsection \<open>ImageDraw\<close>

lemma tint_white_channel: "u8 (drop_bit 8 (u32 x * (u32 255 + 1))) = x"
proof -
  have "u32 x * (u32 255 + 1) = push_bit 8 (ucast x :: 32 word)"
    by (simp add: u32_def push_bit_eq_mult)
  moreover have "ucast (drop_bit 8 (push_bit 8 (ucast x :: 32 word))) = x"
    by (rule bit_word_eqI) (auto simp: bit_simps)
  ultimately show ?thesis
    by (simp add: u8_def)
qed

lemma ColorAlphaBlend_opaque: "a s = 255 \<Longrightarrow> ColorAlphaBlend d s WHITE = s"
  by (simp add: ColorAlphaBlend_def WHITE_def tint_white_channel Let_def)

lemma memcpy_bounds:
  assumes "memcpy m d s so n = Some m'"
  shows "0 \<le> n" "0 \<le> d" "0 \<le> so" "d + n \<le> int (length m)" "so + n \<le> int (length s)"
  using assms by (simp_all add: memcpy_def split: if_splits)

lemma memcpy_nth:
  assumes "memcpy m d s so n = Some m'"
  shows "length m' = length m"
    and "\<And>i. 0 \<le> i \<Longrightarrow> i < int (length m) \<Longrightarrow>
            m' ! nat i = (if d \<le> i \<and> i < d + n then s ! nat (so + (i - d)) else m ! nat i)"
proof -
  note b = memcpy_bounds [OF assms]
  from memcpy_Some [OF b] assms
  have *: "length m' = length m \<and> (\<forall>i. 0 \<le> i \<and> i < int (length m) \<longrightarrow>
            m' ! nat i = (if d \<le> i \<and> i < d + n then s ! nat (so + (i - d)) else m ! nat i))"
    by auto
  from * show "length m' = length m" by simp
  fix i :: int assume "0 \<le> i" "i < int (length m)"
  with * show "m' ! nat i = (if d \<le> i \<and> i < d + n then s ! nat (so + (i - d)) else m ! nat i)"
    by blast
qed

lemma memcpy_split:
  assumes n: "0 \<le> n1" "0 \<le> n2" and c: "memcpy m d s so (n1 + n2) = Some m'"
  shows "\<exists>m1. memcpy m d s so n1 = Some m1 \<and> memcpy m1 (d + n1) s (so + n1) n2 = Some m'"
proof -
  note b = memcpy_bounds [OF c]
  from n b obtain m1 where m1: "memcpy m d s so n1 = Some m1"
    using memcpy_Some [of n1 d so m s] by auto
  note l1 = memcpy_nth [OF m1]
  from n b l1(1) obtain m2 where m2: "memcpy m1 (d + n1) s (so + n1) n2 = Some m2"
    using memcpy_Some [of n2 "d + n1" "so + n1" m1 s] by auto
  note l2 = memcpy_nth [OF m2]
  note l = memcpy_nth [OF c]
  have "m2 = m'"
  proof (rule nth_equalityI)
    show "length m2 = length m'" using l(1) l1(1) l2(1) by simp
    fix k assume "k < length m2"
    then have k: "0 \<le> int k" "int k < int (length m)" "int k < int (length m1)"
      using l1(1) l2(1) by simp_all
    show "m2 ! k = m' ! k"
      using l2(2) [OF k(1) k(3)] l1(2) [OF k(1) k(2)] l(2) [OF k(1) k(2)] n
      by (auto simp: algebra_simps)
  qed
  with m1 m2 show ?thesis by simp
qed

lemma memcpy_one:
  assumes "memcpy m d s so 1 = Some m'"
  shows "load_u8 s so = Some (s ! nat so)" "store_u8 m d (s ! nat so) = Some m'"
    "\<exists>v. load_u8 m d = Some v"
proof -
  note b = memcpy_bounds [OF assms]
  note l = memcpy_nth [OF assms]
  show "load_u8 s so = Some (s ! nat so)" using b by (simp add: load_u8_def)
  show "\<exists>v. load_u8 m d = Some v" using b by (simp add: load_u8_def)
  have "m[nat d := s ! nat so] = m'"
  proof (rule nth_equalityI)
    show "length (m[nat d := s ! nat so]) = length m'" using l(1) by simp
    fix k assume "k < length (m[nat d := s ! nat so])"
    then have k: "0 \<le> int k" "int k < int (length m)" by simp_all
    show "m[nat d := s ! nat so] ! k = m' ! k"
      using l(2) [OF k] b k by (auto simp: nth_list_update nat_eq_iff)
  qed
  then show "store_u8 m d (s ! nat so) = Some m'" using b by (simp add: store_u8_def)
qed

lemma for_loop_refine:
  assumes "\<And>i s res. body1 i s = Some res \<Longrightarrow> body2 i s = Some res"
  shows "for_loop i n body1 s = Some res \<Longrightarrow> for_loop i n body2 s = Some res"
proof (induction k \<equiv> "nat (n - i)" arbitrary: i s)
  case 0
  then show ?case by (simp add: for_loop_done)
next
  case (Suc k)
  then have lt: "i < n" by simp
  with Suc(3) obtain s1 where s1: "body1 i s = Some s1" "for_loop (i + 1) n body1 s1 = Some res"
    by (auto simp: for_loop_step split: bind_splits)
  have "k = nat (n - (i + 1))" using Suc(2) by simp
  from Suc(1) [OF this s1(2)] assms [OF s1(1)] lt show ?case
    by (simp add: for_loop_step)
qed


lemma u16_bytes:
  fixes lo hi :: byte
  shows "(ucast (ucast lo OR push_bit 8 (ucast hi) :: 16 word) :: byte) = lo"
    and "(ucast (drop_bit 8 (ucast lo OR push_bit 8 (ucast hi) :: 16 word)) :: byte) = hi"
proof -
  show "(ucast (ucast lo OR push_bit 8 (ucast hi) :: 16 word) :: byte) = lo"
    by (rule bit_word_eqI) (auto simp: bit_simps)
  show "(ucast (drop_bit 8 (ucast lo OR push_bit 8 (ucast hi) :: 16 word)) :: byte) = hi"
    by (rule bit_word_eqI) (auto simp: bit_simps dest: bit_imp_le_length)
qed

lemma reencode_GRAYSCALE:
  assumes c: "memcpy m pD s pS 1 = Some m'" and ex: "list_all gray_exact s"
  shows "reencode PIXELFORMAT_UNCOMPRESSED_GRAYSCALE m pD s pS = Some m'"
proof -
  note b = memcpy_bounds [OF c]
  note o = memcpy_one [OF c]
  from o(3) obtain v where v: "load_u8 m pD = Some v" by blast
  have "nat pS < length s" using b by simp
  with ex have "gray_exact (s ! nat pS)" by (simp add: list_all_length)
  then have g: "gray_of \<lparr>r = s ! nat pS, g = s ! nat pS, b = s ! nat pS, a = 255\<rparr> = Some (s ! nat pS)"
    by (simp add: gray_exact_def)
  show ?thesis
    by (simp add: reencode_def GetPixelColor_def SetPixelColor_def o(1,2) v ColorAlphaBlend_opaque g)
qed

lemma reencode_R8G8B8:
  assumes c: "memcpy m pD s pS 3 = Some m'"
  shows "reencode PIXELFORMAT_UNCOMPRESSED_R8G8B8 m pD s pS = Some m'"
proof -
  note b = memcpy_bounds [OF c]
  from memcpy_split [of 1 2 m pD s pS m'] c
  obtain m1 where m1: "memcpy m pD s pS 1 = Some m1" "memcpy m1 (pD + 1) s (pS + 1) 2 = Some m'"
    by auto
  from memcpy_split [of 1 1 m1 "pD + 1" s "pS + 1" m'] m1(2)
  obtain m2 where m2: "memcpy m1 (pD + 1) s (pS + 1) 1 = Some m2" "memcpy m2 (pD + 2) s (pS + 2) 1 = Some m'"
    by (auto simp: add.assoc)
  note o1 = memcpy_one [OF m1(1)]
  note o2 = memcpy_one [OF m2(1)]
  note o3 = memcpy_one [OF m2(2)]
  have ld: "load_u8 m pD = Some (m ! nat pD)" "load_u8 m (pD + 1) = Some (m ! nat (pD + 1))"
    "load_u8 m (pD + 2) = Some (m ! nat (pD + 2))"
    using b by (simp_all add: load_u8_def)
  have fmt: "PIXELFORMAT_UNCOMPRESSED_R8G8B8 \<noteq> PIXELFORMAT_UNCOMPRESSED_GRAYSCALE"
    "PIXELFORMAT_UNCOMPRESSED_R8G8B8 \<noteq> PIXELFORMAT_UNCOMPRESSED_GRAY_ALPHA"
    "PIXELFORMAT_UNCOMPRESSED_R8G8B8 \<noteq> PIXELFORMAT_UNCOMPRESSED_R5G6B5"
    "PIXELFORMAT_UNCOMPRESSED_R8G8B8 \<noteq> PIXELFORMAT_UNCOMPRESSED_R5G5B5A1"
    "PIXELFORMAT_UNCOMPRESSED_R8G8B8 \<noteq> PIXELFORMAT_UNCOMPRESSED_R4G4B4A4"
    "PIXELFORMAT_UNCOMPRESSED_R8G8B8 \<noteq> PIXELFORMAT_UNCOMPRESSED_R8G8B8A8"
    by (simp_all add: PIXELFORMAT_defs)
  show ?thesis
    by (simp add: reencode_def GetPixelColor_def SetPixelColor_def fmt o1(1,2) o2(1,2) o3(1,2) ld
        ColorAlphaBlend_opaque)
qed

lemma reencode_R5G6B5:
  assumes c: "memcpy m pD s pS 2 = Some m'"
  shows "reencode PIXELFORMAT_UNCOMPRESSED_R5G6B5 m pD s pS = Some m'"
proof -
  note b = memcpy_bounds [OF c]
  from memcpy_split [of 1 1 m pD s pS m'] c
  obtain m1 where m1: "memcpy m pD s pS 1 = Some m1" "memcpy m1 (pD + 1) s (pS + 1) 1 = Some m'"
    by auto
  note o1 = memcpy_one [OF m1(1)]
  note o2 = memcpy_one [OF m1(2)]
  define p :: "16 word" where "p = ucast (s ! nat pS) OR push_bit 8 (ucast (s ! nat (pS + 1)))"
  have ls: "load_u16 s pS = Some p"
    by (simp add: load_u16_def o1(1) o2(1) p_def)
  have st: "store_u16 m pD p = Some m'"
    unfolding store_u16_def p_def u16_bytes by (simp add: o1(2) o2(2))
  have "\<exists>q. load_u16 m pD = Some q"
    using b by (simp add: load_u16_def load_u8_def)
  then obtain q where q: "load_u16 m pD = Some q" by blast
  show ?thesis
    by (simp add: reencode_def GetPixelColor_R5G6B5 SetPixelColor_R5G6B5 ls q ColorAlphaBlend_opaque
        pack_decoded_R5G6B5 st)
qed

lemma ImageDraw_blit_unfold:
  "ImageDraw_blit fast dst srcPtr srcRec dstRec tint = do {
     strideDst \<leftarrow> GetPixelDataSize (width dst) 1 (format dst);
     strideSrc \<leftarrow> GetPixelDataSize (width srcPtr) 1 (format srcPtr);
     bS \<leftarrow> (if width srcPtr = 0 then None else Some (c_div strideSrc (width srcPtr)));
     dstData \<leftarrow> data dst;
     (dstData', pSrcBase', pDstBase') \<leftarrow> for_loop 0 (rec_height srcRec)
         (blit_row (\<not> (fast \<and> a tint = 255
            \<and> (format srcPtr = PIXELFORMAT_UNCOMPRESSED_GRAYSCALE
                 \<or> format srcPtr = PIXELFORMAT_UNCOMPRESSED_R8G8B8
                 \<or> format srcPtr = PIXELFORMAT_UNCOMPRESSED_R5G6B5)))
            tint dst srcPtr (rec_width srcRec) bS (c_div strideDst (width dst)) strideSrc strideDst)
         (dstData, (rec_y srcRec * width srcPtr + rec_x srcRec) * bS,
          (rec_y dstRec * width dst + rec_x dstRec) * c_div strideDst (width dst));
     Some (dst\<lparr>data := Some dstData'\<rparr>) }"
  unfolding ImageDraw_blit_def blit_row_def blit_pixel_def Let_def
  by (rule refl)


lemma c_div_mult:
  assumes "0 < k"
  shows "c_div (w * k) k = w" and "w \<noteq> 0 \<Longrightarrow> c_div (w * k) w = k"
proof -
  show "c_div (w * k) k = w"
    using assms by (simp add: c_div_def abs_mult sgn_mult mult_sgn_abs)
  assume "w \<noteq> 0"
  then have "sgn w * sgn w = 1" by (simp add: sgn_if)
  then have "sgn (w * k) * sgn w = 1" using assms by (simp add: sgn_mult mult.commute mult.left_commute)
  moreover have "\<bar>w * k\<bar> div \<bar>w\<bar> = k" using assms \<open>w \<noteq> 0\<close> by (simp add: abs_mult)
  ultimately show "c_div (w * k) w = k"
    by (simp add: c_div_def)
qed

lemma bytes_per_pixel:
  assumes s: "GetPixelDataSize w 1 f = Some stride" and w: "w \<noteq> 0"
    and f: "f = PIXELFORMAT_UNCOMPRESSED_GRAYSCALE \<and> B = 1
          \<or> f = PIXELFORMAT_UNCOMPRESSED_R5G6B5 \<and> B = 2
          \<or> f = PIXELFORMAT_UNCOMPRESSED_R8G8B8 \<and> B = 3"
  shows "c_div stride w = B"
proof -
  have bpp: "format_bpp f = B * 8" and u: "\<not> PIXELFORMAT_COMPRESSED_DXT1_RGB \<le> f"
    "\<not> PIXELFORMAT_COMPRESSED_DXT3_RGBA \<le> f"
    using f by (auto simp: format_bpp_def PIXELFORMAT_defs)
  from s have "stride = c_div (w * (B * 8)) 8"
    unfolding GetPixelDataSize_alt bpp using u
    by (auto simp: int32_def split: bind_splits if_splits)
  also have "\<dots> = c_div ((w * B) * 8) 8" by (simp add: mult.assoc)
  also have "\<dots> = w * B" by (rule c_div_mult(1)) simp
  finally have "stride = w * B" .
  moreover have "0 < B" using f by auto
  ultimately show ?thesis using c_div_mult(2) [of B w] w by simp
qed

lemma blit_pixel_reencode:
  "blit_pixel True WHITE f f s B B x (m1, pS, pD) =
     reencode f m1 pD s pS \<bind> (\<lambda>m2. Some (m2, pS + B, pD + B))"
  by (simp add: blit_pixel_def reencode_def)

lemma row_copy:
  assumes px: "\<And>m pD pS m'. memcpy m pD s pS B = Some m' \<Longrightarrow> reencode f m pD s pS = Some m'"
    and B: "0 \<le> B"
  shows "memcpy m pD s pS (int w * B) = Some m' \<Longrightarrow>
         for_loop x0 (x0 + int w) (blit_pixel True WHITE f f s B B) (m, pS, pD)
           = Some (m', pS + int w * B, pD + int w * B)"
proof (induction w arbitrary: m pS pD x0)
  case 0
  then have "m' = m" by (simp add: memcpy_def split: if_splits)
  then show ?case by (simp add: for_loop_done)
next
  case (Suc w)
  have "int (Suc w) * B = B + int w * B" by (simp add: algebra_simps)
  with Suc(2) have "memcpy m pD s pS (B + int w * B) = Some m'" by simp
  from memcpy_split [OF B _ this] B
  obtain m1 where m1: "memcpy m pD s pS B = Some m1"
    "memcpy m1 (pD + B) s (pS + B) (int w * B) = Some m'"
    by auto
  have step: "blit_pixel True WHITE f f s B B x0 (m, pS, pD) = Some (m1, pS + B, pD + B)"
    by (simp add: blit_pixel_reencode px [OF m1(1)])
  have "for_loop (x0 + 1) (x0 + 1 + int w) (blit_pixel True WHITE f f s B B) (m1, pS + B, pD + B)
      = Some (m', pS + B + int w * B, pD + B + int w * B)"
    by (rule Suc(1) [OF m1(2)])
  then show ?case
    using step by (simp add: for_loop_step algebra_simps)
qed

lemma GetPixelColor_opaque:
  assumes "f = PIXELFORMAT_UNCOMPRESSED_GRAYSCALE \<or> f = PIXELFORMAT_UNCOMPRESSED_R8G8B8
           \<or> f = PIXELFORMAT_UNCOMPRESSED_R5G6B5"
    and "GetPixelColor s p f = Some c"
  shows "a c = 255"
  using assms by (auto simp: GetPixelColor_def PIXELFORMAT_defs split: bind_splits)

lemma blit_pixel_refine:
  assumes f: "fs = PIXELFORMAT_UNCOMPRESSED_GRAYSCALE \<or> fs = PIXELFORMAT_UNCOMPRESSED_R8G8B8
           \<or> fs = PIXELFORMAT_UNCOMPRESSED_R5G6B5"
    and p: "blit_pixel False WHITE fs fd s bS bD x st = Some res"
  shows "blit_pixel True WHITE fs fd s bS bD x st = Some res"
proof -
  obtain m1 pS pD where st: "st = (m1, pS, pD)" by (cases st) auto
  from p obtain c where c: "GetPixelColor s pS fs = Some c"
    by (auto simp: st blit_pixel_def split: bind_splits)
  have "ColorAlphaBlend d c WHITE = c" for d
    by (rule ColorAlphaBlend_opaque) (rule GetPixelColor_opaque [OF f c])
  with p c show ?thesis
    by (simp add: st blit_pixel_def)
qed

lemma blit_row_refine:
  assumes sd: "GetPixelDataSize (width dst) 1 (format dst) = Some sD" and wd: "width dst \<noteq> 0"
    and ss: "GetPixelDataSize (width srcPtr) 1 (format srcPtr) = Some sS" and ws: "width srcPtr \<noteq> 0"
    and gray: "format srcPtr = PIXELFORMAT_UNCOMPRESSED_GRAYSCALE \<Longrightarrow>
               format dst = PIXELFORMAT_UNCOMPRESSED_GRAYSCALE \<Longrightarrow> gray_exact_image srcPtr"
    and row: "blit_row (\<not> (format srcPtr = PIXELFORMAT_UNCOMPRESSED_GRAYSCALE
                 \<or> format srcPtr = PIXELFORMAT_UNCOMPRESSED_R8G8B8
                 \<or> format srcPtr = PIXELFORMAT_UNCOMPRESSED_R5G6B5)) WHITE dst srcPtr w
               (c_div sS (width srcPtr)) (c_div sD (width dst)) sS sD y st = Some res"
  shows "blit_row True WHITE dst srcPtr w
               (c_div sS (width srcPtr)) (c_div sD (width dst)) sS sD y st = Some res"
proof -
  define af where "af \<longleftrightarrow> format srcPtr = PIXELFORMAT_UNCOMPRESSED_GRAYSCALE
                 \<or> format srcPtr = PIXELFORMAT_UNCOMPRESSED_R8G8B8
                 \<or> format srcPtr = PIXELFORMAT_UNCOMPRESSED_R5G6B5"
  obtain m pS pD where st: "st = (m, pS, pD)" by (cases st) auto
  note row' = row [folded af_def]
  show ?thesis
  proof (cases af)
    case False
    with row' show ?thesis by simp
  next
    case True
    from row' obtain srcData where srcData: "data srcPtr = Some srcData"
      by (auto simp: blit_row_def st split: bind_splits)
    show ?thesis
    proof (cases "format srcPtr = format dst")
      case eq: True
      from True eq row' srcData obtain m' where
        cp: "memcpy m pD srcData pS (w * c_div sS (width srcPtr)) = Some m'"
        and res: "res = (m', pS + sS, pD + sD)"
        by (auto simp: blit_row_def st split: bind_splits)
      from True obtain B :: int where fB: "format srcPtr = PIXELFORMAT_UNCOMPRESSED_GRAYSCALE \<and> B = 1
          \<or> format srcPtr = PIXELFORMAT_UNCOMPRESSED_R5G6B5 \<and> B = 2
          \<or> format srcPtr = PIXELFORMAT_UNCOMPRESSED_R8G8B8 \<and> B = 3"
        unfolding af_def by auto
      have bS: "c_div sS (width srcPtr) = B" by (rule bytes_per_pixel [OF ss ws fB])
      have bD: "c_div sD (width dst) = B" using bytes_per_pixel [OF sd wd, of B] fB eq by simp
      have Bpos: "0 < B" using fB by auto
      from memcpy_bounds(1) [OF cp] have w0: "0 \<le> w"
        unfolding bS using Bpos by (simp add: zero_le_mult_iff)
      have px: "reencode (format srcPtr) m0 pD0 srcData pS0 = Some m0'"
        if "memcpy m0 pD0 srcData pS0 B = Some m0'" for m0 pD0 pS0 m0'
      proof -
        from fB consider "format srcPtr = PIXELFORMAT_UNCOMPRESSED_GRAYSCALE" "B = 1"
          | "format srcPtr = PIXELFORMAT_UNCOMPRESSED_R5G6B5" "B = 2"
          | "format srcPtr = PIXELFORMAT_UNCOMPRESSED_R8G8B8" "B = 3" by blast
        then show ?thesis
        proof cases
          case 1
          with gray eq srcData have "list_all gray_exact srcData"
            by (simp add: gray_exact_image_def)
          with that 1 show ?thesis by (simp add: reencode_GRAYSCALE)
        next
          case 2
          with that show ?thesis by (simp add: reencode_R5G6B5)
        next
          case 3
          with that show ?thesis by (simp add: reencode_R8G8B8)
        qed
      qed
      have "memcpy m pD srcData pS (int (nat w) * B) = Some m'"
        using cp w0 by (simp add: bS)
      from row_copy [of srcData B "format srcPtr", OF px _ this, of 0] Bpos w0
      have "for_loop 0 w (blit_pixel True WHITE (format srcPtr) (format srcPtr) srcData B B) (m, pS, pD)
           = Some (m', pS + w * B, pD + w * B)"
        by simp
      then show ?thesis
        using eq by (simp add: blit_row_def st srcData bS bD res)
    next
      case ne: False
      from True ne row' srcData obtain m' p1 p2 where
        lp: "for_loop 0 w (blit_pixel False WHITE (format srcPtr) (format dst) srcData
               (c_div sS (width srcPtr)) (c_div sD (width dst))) (m, pS, pD) = Some (m', p1, p2)"
        and res: "res = (m', pS + sS, pD + sD)"
        by (auto simp: blit_row_def st split: bind_splits)
      have "for_loop 0 w (blit_pixel True WHITE (format srcPtr) (format dst) srcData
               (c_div sS (width srcPtr)) (c_div sD (width dst))) (m, pS, pD) = Some (m', p1, p2)"
        using lp
      proof (rule for_loop_refine [rotated])
        fix i s res0
        assume "blit_pixel False WHITE (format srcPtr) (format dst) srcData
               (c_div sS (width srcPtr)) (c_div sD (width dst)) i s = Some res0"
        then show "blit_pixel True WHITE (format srcPtr) (format dst) srcData
               (c_div sS (width srcPtr)) (c_div sD (width dst)) i s = Some res0"
          by (rule blit_pixel_refine [OF True [unfolded af_def]])
      qed
      then show ?thesis
        by (simp add: blit_row_def st srcData res)
    qed
  qed
qed

lemma ImageDraw_blit_refine:
  assumes wd: "width dst \<noteq> 0"
    and gray: "format srcPtr = PIXELFORMAT_UNCOMPRESSED_GRAYSCALE \<Longrightarrow>
               format dst = PIXELFORMAT_UNCOMPRESSED_GRAYSCALE \<Longrightarrow> gray_exact_image srcPtr"
    and fast: "ImageDraw_blit True dst srcPtr srcRec dstRec WHITE = Some dst'"
  shows "ImageDraw_blit False dst srcPtr srcRec dstRec WHITE = Some dst'"
proof -
  have aw: "a WHITE = 255" by (simp add: WHITE_def)
  from fast obtain sD sS dstData res where
    sd: "GetPixelDataSize (width dst) 1 (format dst) = Some sD"
    and ss: "GetPixelDataSize (width srcPtr) 1 (format srcPtr) = Some sS"
    and ws: "width srcPtr \<noteq> 0"
    and dd: "data dst = Some dstData"
    and lp: "for_loop 0 (rec_height srcRec)
         (blit_row (\<not> (format srcPtr = PIXELFORMAT_UNCOMPRESSED_GRAYSCALE
                 \<or> format srcPtr = PIXELFORMAT_UNCOMPRESSED_R8G8B8
                 \<or> format srcPtr = PIXELFORMAT_UNCOMPRESSED_R5G6B5))
            WHITE dst srcPtr (rec_width srcRec) (c_div sS (width srcPtr)) (c_div sD (width dst)) sS sD)
         (dstData, (rec_y srcRec * width srcPtr + rec_x srcRec) * c_div sS (width srcPtr),
          (rec_y dstRec * width dst + rec_x dstRec) * c_div sD (width dst)) = Some res"
    and out: "dst' = dst\<lparr>data := Some (fst res)\<rparr>"
    unfolding ImageDraw_blit_unfold
    by (auto simp: aw split: bind_splits if_splits)
  have "for_loop 0 (rec_height srcRec)
         (blit_row True
            WHITE dst srcPtr (rec_width srcRec) (c_div sS (width srcPtr)) (c_div sD (width dst)) sS sD)
         (dstData, (rec_y srcRec * width srcPtr + rec_x srcRec) * c_div sS (width srcPtr),
          (rec_y dstRec * width dst + rec_x dstRec) * c_div sD (width dst)) = Some res"
    using lp
  proof (rule for_loop_refine [rotated])
    fix i s res0
    assume asm: "blit_row (\<not> (format srcPtr = PIXELFORMAT_UNCOMPRESSED_GRAYSCALE
                 \<or> format srcPtr = PIXELFORMAT_UNCOMPRESSED_R8G8B8
                 \<or> format srcPtr = PIXELFORMAT_UNCOMPRESSED_R5G6B5))
            WHITE dst srcPtr (rec_width srcRec) (c_div sS (width srcPtr)) (c_div sD (width dst)) sS sD
            i s = Some res0"
    show "blit_row True
            WHITE dst srcPtr (rec_width srcRec) (c_div sS (width srcPtr)) (c_div sD (width dst)) sS sD
            i s = Some res0"
      by (rule blit_row_refine [OF sd wd ss ws _ asm]) (rule gray)
  qed
  then show ?thesis
    unfolding ImageDraw_blit_unfold
    by (simp add: sd ss ws dd out split: prod.splits)
qed

lemma ImageDraw_clip_source:
  assumes "ImageDraw_clip resize dst src srcRec0 dstRec0 = Some (srcPtr, srcRec, dstRec)"
  shows "srcPtr = src \<or> (\<exists>i w h. resize i w h = Some srcPtr)"
  using assms unfolding ImageDraw_clip_def Let_def
  by (auto split: bind_splits if_splits prod.splits)

lemma gray_exact_levels_all:
  "\<forall>n\<in>set [0..<256]. gray_exact (of_nat n)
      = (n \<notin> set [45, 85, 90, 95, 167, 170, 180, 190, 227, 237, 247])"
  by code_simp

lemma gray_exact_levels:
  "gray_exact v = (v \<notin> {45, 85, 90, 95, 167, 170, 180, 190, 227, 237, 247})"
proof -
  have "unat v < 2 ^ LENGTH(8)" by (rule unsigned_less)
  then have "unat v \<in> set [0..<256]" by simp
  with gray_exact_levels_all
  have "gray_exact (of_nat (unat v))
      = (unat v \<notin> set [45, 85, 90, 95, 167, 170, 180, 190, 227, 237, 247])"
    by blast
  moreover have "(of_nat (unat v) :: byte) = v" by simp
  ultimately show ?thesis
    by (simp add: word_unat_eq_iff)
qed

text \<open>
  The fast path is defined on buffers of the right length, for a source drawn whole at a
  place of the destination that holds it.
\<close>

lemma stride_value:
  assumes f: "f = PIXELFORMAT_UNCOMPRESSED_GRAYSCALE \<and> B = 1
          \<or> f = PIXELFORMAT_UNCOMPRESSED_R5G6B5 \<and> B = 2
          \<or> f = PIXELFORMAT_UNCOMPRESSED_R8G8B8 \<and> B = 3"
    and w: "0 < w" "w < 2 ^ 26"
  shows "GetPixelDataSize w 1 f = Some (w * B)"
proof -
  have bpp: "format_bpp f = B * 8" and u: "\<not> PIXELFORMAT_COMPRESSED_DXT1_RGB \<le> f"
    "\<not> PIXELFORMAT_COMPRESSED_DXT3_RGBA \<le> f"
    using f by (auto simp: format_bpp_def PIXELFORMAT_defs)
  have B: "0 < B" "B \<le> 3" using f by auto
  define p where "p = w * B"
  have bw: "p \<le> w * 3" "0 \<le> p" unfolding p_def using B w by (simp_all add: mult_left_mono)
  have e: "w * (B * 8) = p * 8" by (simp add: p_def)
  have r: "w * (B * 8) < 2 ^ 31" "- (2 ^ 31) \<le> w * (B * 8)" "w < 2 ^ 31" "- (2 ^ 31) \<le> w"
    unfolding e using w bw by simp_all
  have "c_div (w * (B * 8)) 8 = c_div ((w * B) * 8) 8" by (simp add: mult.assoc)
  also have "\<dots> = w * B" by (rule c_div_mult(1)) simp
  finally have c: "c_div (w * (B * 8)) 8 = w * B" .
  show ?thesis
    unfolding GetPixelDataSize_alt bpp using u r
    by (simp add: int32_def c mult.commute)
qed

lemma ImageDraw_defined:
  assumes same: "format src = format dst"
    and f: "format dst = PIXELFORMAT_UNCOMPRESSED_GRAYSCALE \<and> B = 1
          \<or> format dst = PIXELFORMAT_UNCOMPRESSED_R5G6B5 \<and> B = 2
          \<or> format dst = PIXELFORMAT_UNCOMPRESSED_R8G8B8 \<and> B = 3"
    and src: "data src = Some s" "int (length s) = width src * height src * B"
      "0 < width src" "width src < 2 ^ 26" "0 < height src"
    and dst: "data dst = Some d" "int (length d) = width dst * height dst * B"
      "0 < width dst" "width dst < 2 ^ 26" "0 < height dst"
    and pos: "0 \<le> x" "x + width src \<le> width dst" "0 \<le> y" "y + height src \<le> height dst"
  shows "\<exists>dst'. ImageDraw resize dst src
            \<lparr>rec_x = 0, rec_y = 0, rec_width = width src, rec_height = height src\<rparr>
            \<lparr>rec_x = x, rec_y = y, rec_width = width src, rec_height = height src\<rparr> WHITE
          = Some dst'"
proof -
  let ?sr = "\<lparr>rec_x = 0, rec_y = 0, rec_width = width src, rec_height = height src\<rparr>"
  let ?dr = "\<lparr>rec_x = x, rec_y = y, rec_width = width src, rec_height = height src\<rparr>"
  have clip: "ImageDraw_clip resize dst src ?sr ?dr = Some (src, ?sr, ?dr)"
    using src(3,5) dst(3,5) pos by (simp add: ImageDraw_clip_def)
  have B: "0 < B" using f by auto
  have sd: "GetPixelDataSize (width dst) 1 (format dst) = Some (width dst * B)"
    by (rule stride_value [OF f dst(3,4)])
  have ss: "GetPixelDataSize (width src) 1 (format src) = Some (width src * B)"
    unfolding same by (rule stride_value [OF f src(3,4)])
  have bD: "c_div (width dst * B) (width dst) = B" using c_div_mult(2) [OF B, of "width dst"] dst(3) by simp
  have bS: "c_div (width src * B) (width src) = B" using c_div_mult(2) [OF B, of "width src"] src(3) by simp
  have af: "format src = PIXELFORMAT_UNCOMPRESSED_GRAYSCALE
      \<or> format src = PIXELFORMAT_UNCOMPRESSED_R8G8B8
      \<or> format src = PIXELFORMAT_UNCOMPRESSED_R5G6B5"
    using f same by auto
  define I where "I j t \<longleftrightarrow> (case t of (m, pS, pD) \<Rightarrow>
      length m = length d \<and> pS = j * (width src * B) \<and> pD = ((y + j) * width dst + x) * B)"
    for j :: int and t :: "byte list \<times> int \<times> int"
  have "\<exists>t. for_loop 0 (height src)
         (blit_row False WHITE dst src (width src) B B (width src * B) (width dst * B))
         (d, 0, (y * width dst + x) * B) = Some t \<and> I (max 0 (height src)) t"
  proof (rule for_loop_rule)
    show "I 0 (d, 0, (y * width dst + x) * B)" by (simp add: I_def)
  next
    fix j t assume j: "0 \<le> j" "j < height src" and "I j t"
    then obtain m where t: "t = (m, j * (width src * B), ((y + j) * width dst + x) * B)"
      and lm: "length m = length d"
      by (auto simp: I_def)
    have s1: "(j * width src + 0) * B + width src * B \<le> width src * height src * B"
      using row_fits [of j "height src" 0 "width src" "width src" B] j src(3) B by simp
    have d1: "((y + j) * width dst + x) * B + width src * B \<le> width dst * height dst * B"
      using row_fits [of "y + j" "height dst" x "width src" "width dst" B] j src(3) B pos by simp
    have d0: "0 \<le> ((y + j) * width dst + x) * B"
      using j pos dst(3) B by simp
    have s0: "0 \<le> j * (width src * B)" using j src(3) B by simp
    have n0: "0 \<le> width src * B" using src(3) B by simp
    from memcpy_Some [OF n0 d0 s0, of m s] d1 s1 lm dst(2) src(2)
    obtain m' where m': "memcpy m (((y + j) * width dst + x) * B) s (j * (width src * B)) (width src * B) = Some m'"
      "length m' = length m"
      by (auto simp: algebra_simps)
    show "\<exists>t'. blit_row False WHITE dst src (width src) B B (width src * B) (width dst * B) j t = Some t'
        \<and> I (j + 1) t'"
      using m' lm by (simp add: blit_row_def t src(1) same I_def algebra_simps)
  qed
  then obtain t where "for_loop 0 (height src)
         (blit_row False WHITE dst src (width src) B B (width src * B) (width dst * B))
         (d, 0, (y * width dst + x) * B) = Some t" by blast
  moreover have "a WHITE = 255" by (simp add: WHITE_def)
  ultimately have "\<exists>dst'. ImageDraw_blit True dst src ?sr ?dr WHITE = Some dst'"
    unfolding ImageDraw_blit_unfold using src(3) af
    by (auto simp: sd ss bS bD dst(1) split: prod.splits)
  then show ?thesis
    using clip src dst f by (auto simp: ImageDraw_def ImageDraw_paths_def PIXELFORMAT_defs)
qed

text \<open>
  What holds.  Under the opaque white tint, whenever ImageDraw (with its fast paths)
  returns an image, the same call with every pixel decoded, blended and encoded returns
  the same image, for source and destination of the same format R8G8B8 or R5G6B5, and for
  Grayscale when every byte of the source that is read (the source itself, or its
  resampled copy) is a grey level that the encoder maps to itself: all levels but the
  eleven of \<open>gray_exact_levels\<close>.
\<close>

lemma ImageDraw_paths_agree:
  assumes same: "format src = format dst"
    and fmt: "format dst = PIXELFORMAT_UNCOMPRESSED_R8G8B8
       \<or> format dst = PIXELFORMAT_UNCOMPRESSED_R5G6B5
       \<or> format dst = PIXELFORMAT_UNCOMPRESSED_GRAYSCALE \<and> gray_exact_image src
           \<and> (\<forall>i w h res. resize i w h = Some res \<longrightarrow> gray_exact_image res)"
    and fast: "ImageDraw resize dst src srcRec dstRec WHITE = Some dst'"
  shows "ImageDraw_paths False resize dst src srcRec dstRec WHITE = Some dst'"
proof (cases "data dst = None \<or> width dst = 0 \<or> height dst = 0
        \<or> data src = None \<or> width src = 0 \<or> height src = 0
        \<or> format dst \<ge> PIXELFORMAT_COMPRESSED_DXT1_RGB")
  case True
  with fast show ?thesis by (auto simp: ImageDraw_def ImageDraw_paths_def)
next
  case False
  with fast obtain srcPtr srcRec' dstRec' where
    clip: "ImageDraw_clip resize dst src srcRec dstRec = Some (srcPtr, srcRec', dstRec')"
    and blit: "ImageDraw_blit True dst srcPtr srcRec' dstRec' WHITE = Some dst'"
    by (auto simp: ImageDraw_def ImageDraw_paths_def split: bind_splits)
  from False have wd: "width dst \<noteq> 0" by simp
  have gray: "gray_exact_image srcPtr"
    if "format srcPtr = PIXELFORMAT_UNCOMPRESSED_GRAYSCALE"
      "format dst = PIXELFORMAT_UNCOMPRESSED_GRAYSCALE"
  proof -
    from that(2) fmt have g: "gray_exact_image src"
      "\<forall>i w h res. resize i w h = Some res \<longrightarrow> gray_exact_image res"
      by (auto simp: PIXELFORMAT_defs)
    from ImageDraw_clip_source [OF clip] g show ?thesis by blast
  qed
  have "ImageDraw_blit False dst srcPtr srcRec' dstRec' WHITE = Some dst'"
    by (rule ImageDraw_blit_refine [OF wd _ blit]) (rule gray)
  with False clip show ?thesis
    by (auto simp: ImageDraw_paths_def)
qed

text \<open>
  Beyond the right edge of the destination the two paths part as well: at \<open>dstRec.x = 9\<close> on
  a destination 8 pixels wide the clamp leaves the width -1, the fast path calls memcpy
  with the length -3, and the per-pixel path runs no iteration.
\<close>

lemma ImageDraw_beyond_right_edge:
  "ImageDraw (\<lambda>i w h. None)
     \<lparr>data = Some (replicate 192 0), width = 8, height = 8, mipmaps = 1,
      format = PIXELFORMAT_UNCOMPRESSED_R8G8B8\<rparr>
     \<lparr>data = Some (replicate 48 7), width = 4, height = 4, mipmaps = 1,
      format = PIXELFORMAT_UNCOMPRESSED_R8G8B8\<rparr>
     \<lparr>rec_x = 0, rec_y = 0, rec_width = 4, rec_height = 4\<rparr>
     \<lparr>rec_x = 9, rec_y = 0, rec_width = 4, rec_height = 4\<rparr> WHITE = None
   \<and> ImageDraw_paths False (\<lambda>i w h. None)
     \<lparr>data = Some (replicate 192 0), width = 8, height = 8, mipmaps = 1,
      format = PIXELFORMAT_UNCOMPRESSED_R8G8B8\<rparr>
     \<lparr>data = Some (replicate 48 7), width = 4, height = 4, mipmaps = 1,
      format = PIXELFORMAT_UNCOMPRESSED_R8G8B8\<rparr>
     \<lparr>rec_x = 0, rec_y = 0, rec_width = 4, rec_height = 4\<rparr>
     \<lparr>rec_x = 9, rec_y = 0, rec_width = 4, rec_height = 4\<rparr> WHITE
   = Some \<lparr>data = Some (replicate 192 0), width = 8, height = 8, mipmaps = 1,
      format = PIXELFORMAT_UNCOMPRESSED_R8G8B8\<rparr>"
  by code_simp

text \<open>
  Claim C2 says that the fast path and the per-pixel path write the same bytes for
  Grayscale, R8G8B8 and R5G6B5.  For a 4x4 Grayscale source of level 45 drawn at (2, 2) of
  an 8x8 destination of zeros under the white tint, ImageDraw copies the bytes 45.  The
  per-pixel path decodes the colour (45, 45, 45, 255), and SetPixelColor encodes its
  luminance, which in binary32 arithmetic rounds to a value below 45/255 and is truncated
  to 44.
\<close>

theorem ImageDraw_grayscale_paths_differ:
  "ImageDraw (\<lambda>i w h. None)
     \<lparr>data = Some (replicate 64 0), width = 8, height = 8, mipmaps = 1,
      format = PIXELFORMAT_UNCOMPRESSED_GRAYSCALE\<rparr>
     \<lparr>data = Some (replicate 16 45), width = 4, height = 4, mipmaps = 1,
      format = PIXELFORMAT_UNCOMPRESSED_GRAYSCALE\<rparr>
     \<lparr>rec_x = 0, rec_y = 0, rec_width = 4, rec_height = 4\<rparr>
     \<lparr>rec_x = 2, rec_y = 2, rec_width = 4, rec_height = 4\<rparr> WHITE
   = Some \<lparr>data = Some (replicate 16 0 @ concat (replicate 4 ([0, 0] @ replicate 4 45 @ [0, 0]))
                          @ replicate 16 0),
            width = 8, height = 8, mipmaps = 1, format = PIXELFORMAT_UNCOMPRESSED_GRAYSCALE\<rparr>
   \<and> ImageDraw_paths False (\<lambda>i w h. None)
     \<lparr>data = Some (replicate 64 0), width = 8, height = 8, mipmaps = 1,
      format = PIXELFORMAT_UNCOMPRESSED_GRAYSCALE\<rparr>
     \<lparr>data = Some (replicate 16 45), width = 4, height = 4, mipmaps = 1,
      format = PIXELFORMAT_UNCOMPRESSED_GRAYSCALE\<rparr>
     \<lparr>rec_x = 0, rec_y = 0, rec_width = 4, rec_height = 4\<rparr>
     \<lparr>rec_x = 2, rec_y = 2, rec_width = 4, rec_height = 4\<rparr> WHITE
   = Some \<lparr>data = Some (replicate 16 0 @ concat (replicate 4 ([0, 0] @ replicate 4 44 @ [0, 0]))
                          @ replicate 16 0),
            width = 8, height = 8, mipmaps = 1, format = PIXELFORMAT_UNCOMPRESSED_GRAYSCALE\<rparr>"
  by code_simp

end
